theory Spec2Isabelle
  imports Complex_Main "HOL-Library.Sublist"
begin

section \<open>The validator of \<open>ultralytics/yolo/engine/validator.py\<close>\<close>

text \<open>
  \<open>BaseValidator.__call__\<close> is embedded as a function that threads the validator object
  (\<open>self\<close>) explicitly, returns every exception as a value and records the calls it makes
  to its hooks and collaborators in a trace of events.  Python objects of libraries (tensors,
  predictions, prediction records) are type parameters: \<open>'v\<close> for tensors and predictions,
  \<open>'s\<close> for the values of a stats map, \<open>'j\<close> for the records of \<open>jdict\<close>, \<open>'h\<close> for the
  attributes a subclass adds to \<open>self\<close>, \<open>'w\<close> for the model handle given to the call.
  Elapsed times, which are Python floats, are rational numbers here.
\<close>

subsection \<open>Exceptions and the result of a computation\<close>

datatype error =
    AssertionError string
  | AttributeError string
  | TypeError string
  | KeyError string
  | ZeroDivisionError string
  | NotImplementedError string
  | Raised string

text \<open>
  A computation yields the events it caused, in order, and either the exception it raised
  (\<open>Inl\<close>) or its value (\<open>Inr\<close>).  An exception ends the computation; the events before it
  stay in the trace.
\<close>

definition ret :: "'a \<Rightarrow> 'e list \<times> (error + 'a)" where
  "ret x = ([], Inr x)"

definition throw :: "error \<Rightarrow> 'e list \<times> (error + 'a)" where
  "throw e = ([], Inl e)"

definition emit :: "'e \<Rightarrow> 'e list \<times> (error + unit)" where
  "emit e = ([e], Inr ())"

definition lift :: "error + 'a \<Rightarrow> 'e list \<times> (error + 'a)" where
  "lift r = ([], r)"

definition bind_r ::
  "'e list \<times> (error + 'a) \<Rightarrow> ('a \<Rightarrow> 'e list \<times> (error + 'b)) \<Rightarrow> 'e list \<times> (error + 'b)" where
  "bind_r m f =
     (case snd m of
        Inl e \<Rightarrow> (fst m, Inl e)
      | Inr x \<Rightarrow> (fst m @ fst (f x), snd (f x)))"

subsection \<open>The objects of a run\<close>

type_synonym 'v batch = "(string \<times> 'v) list"

type_synonym 's stats_map = "string \<Rightarrow> 's option"

type_synonym speed_profile = "rat \<times> rat \<times> rat \<times> rat"

text \<open>\<open>torch.device\<close>: only its \<open>type\<close> attribute is read.\<close>

record torch_device =
  device_type :: string

text \<open>
  The value of \<open>self.args.data\<close>: a string, or an object of another type
  (line 73 tests \<open>isinstance(self.args.data, str)\<close>).
\<close>

datatype locator = StrLoc string | OtherLoc

text \<open>The options of \<open>self.args\<close> that \<open>__call__\<close> reads or writes.\<close>

record run_args =
  half :: bool
  plots :: bool
  batch_size :: int
  imgsz :: int
  save_json :: bool
  args_data :: locator
  args_device :: string
  dnn :: bool

text \<open>
  A dataloader: the batches it yields, in order, and \<open>len(dataloader.dataset)\<close>.
  \<open>len(dataloader)\<close> is the number of batches.
\<close>

record 'v loader =
  batches :: "'v batch list"
  dataset_len :: nat

text \<open>
  The model that is evaluated: a module of the trainer, or the backend object that
  \<open>AutoBackend\<close> builds.  \<open>forward\<close> is the call \<open>model(x)\<close>; \<open>fp16\<close> and \<open>eval_mode\<close> are
  what \<open>half()\<close>/\<open>float()\<close> and \<open>eval()\<close> set; the other fields are the attributes lines
  62 to 67 read from a backend.
\<close>

record 'v net =
  forward :: "'v \<Rightarrow> error + 'v"
  fp16 :: bool
  eval_mode :: bool
  stride :: int
  pt :: bool
  jit :: bool
  engine :: bool
  net_batch_size :: int
  net_device :: torch_device

text \<open>The dataset descriptor returned by dataset resolution: a Python dict of split paths.\<close>

type_synonym dataset = "(string \<times> string) list"

text \<open>
  The attributes and methods of the trainer that \<open>__call__\<close> uses.  \<open>ema\<close> is
  \<open>trainer.ema.ema\<close> (\<open>None\<close> when there is no shadow model); \<open>criterion\<close> returns a pair,
  of which line 104 takes component 1.
\<close>

record ('v, 's) trainer =
  trainer_device :: torch_device
  trainer_data :: dataset
  ema :: "'v net option"
  trainer_model :: "'v net"
  loss_items :: 'v
  epoch :: int
  epochs :: int
  criterion :: "'v \<Rightarrow> 'v batch \<Rightarrow> error + ('v \<times> 'v)"
  label_loss_items :: "'v \<Rightarrow> string \<Rightarrow> 's stats_map"

text \<open>
  \<open>BaseValidator.__init__\<close>, lines 22 to 36: the attributes of \<open>self\<close>.  \<open>loss\<close> is set only
  by line 54, so it is absent (\<open>None\<close>) before.  \<open>sub_state\<close> stands for whatever a
  subclass keeps on \<open>self\<close>.  The progress bar and the logger object are left out; what is
  logged appears as events.
\<close>

record ('v, 'j, 'h) validator =
  dataloader :: "'v loader option"
  args :: run_args
  model :: "'v net option"
  data :: "dataset option"
  device :: "torch_device option"
  batch_i :: "nat option"
  training :: bool
  speed :: "speed_profile option"
  jdict :: "'j list option"
  loss :: "'v option"
  save_dir :: string
  sub_state :: 'h

text \<open>
  What the call does to the world outside \<open>self\<close>, in the order it happens.  An event
  that carries the result of a call (\<open>Preprocess\<close>, \<open>Infer\<close>, \<open>Criterion\<close>, \<open>Postprocess\<close>,
  \<open>GetStats\<close>; the result is the last argument) is recorded when the call returns; every other
  event is recorded when the call is made and carries its arguments.
\<close>

datatype ('v, 's, 'j) event =
    LogForcingBatchSize1 int
  | LogSpeed speed_profile
  | LogSaving string
  | JsonDump string "'j list"
  | GetDataloader string int
  | GetDesc
  | InitMetrics
  | Preprocess nat "'v batch" "'v batch"
  | Infer nat 'v 'v
  | Criterion nat 'v "'v batch" 'v
  | Postprocess nat 'v 'v
  | UpdateMetrics nat 'v "'v batch"
  | PlotValSamples "'v batch" nat
  | PlotPredictions "'v batch" 'v nat
  | GetStats "'s stats_map"
  | CheckStats "'s stats_map"
  | PrintResults
  | EvalJson "'s stats_map"
  | EnterInferenceMode
  | ExitInferenceMode

text \<open>
  The overridable methods of the class.  A hook sees and may change \<open>self.jdict\<close> and the
  subclass's own attributes; it does not reassign the attributes \<open>__call__\<close> manages.
\<close>

type_synonym ('j, 'h) hook_state = "'j list option \<times> 'h"

record ('v, 's, 'j, 'h) hooks =
  get_dataloader :: "('j, 'h) hook_state \<Rightarrow> string \<Rightarrow> int \<Rightarrow> error + (('j, 'h) hook_state \<times> 'v loader)"
  preprocess :: "('j, 'h) hook_state \<Rightarrow> 'v batch \<Rightarrow> error + (('j, 'h) hook_state \<times> 'v batch)"
  postprocess :: "('j, 'h) hook_state \<Rightarrow> 'v \<Rightarrow> error + (('j, 'h) hook_state \<times> 'v)"
  init_metrics :: "('j, 'h) hook_state \<Rightarrow> 'v net \<Rightarrow> error + (('j, 'h) hook_state \<times> unit)"
  update_metrics :: "('j, 'h) hook_state \<Rightarrow> 'v \<Rightarrow> 'v batch \<Rightarrow> error + (('j, 'h) hook_state \<times> unit)"
  get_stats :: "('j, 'h) hook_state \<Rightarrow> error + (('j, 'h) hook_state \<times> 's stats_map)"
  check_stats :: "('j, 'h) hook_state \<Rightarrow> 's stats_map \<Rightarrow> error + (('j, 'h) hook_state \<times> unit)"
  print_results :: "('j, 'h) hook_state \<Rightarrow> error + (('j, 'h) hook_state \<times> unit)"
  get_desc :: "('j, 'h) hook_state \<Rightarrow> error + (('j, 'h) hook_state \<times> string option)"
  plot_val_samples :: "('j, 'h) hook_state \<Rightarrow> 'v batch \<Rightarrow> nat \<Rightarrow> error + (('j, 'h) hook_state \<times> unit)"
  plot_predictions :: "('j, 'h) hook_state \<Rightarrow> 'v batch \<Rightarrow> 'v \<Rightarrow> nat \<Rightarrow> error + (('j, 'h) hook_state \<times> unit)"
  eval_json :: "('j, 'h) hook_state \<Rightarrow> 's stats_map \<Rightarrow> error + (('j, 'h) hook_state \<times> 's stats_map option)"

text \<open>Lines 132 to 174: the methods as \<open>BaseValidator\<close> itself defines them.\<close>

definition BaseValidator :: "('v, 's, 'j, 'h) hooks" where
  "BaseValidator =
     \<lparr> get_dataloader = (\<lambda>h dataset_path bs.
          Inl (NotImplementedError ''get_dataloader function not implemented for this validator'')),
       preprocess = (\<lambda>h batch. Inr (h, batch)),
       postprocess = (\<lambda>h preds. Inr (h, preds)),
       init_metrics = (\<lambda>h m. Inr (h, ())),
       update_metrics = (\<lambda>h preds batch. Inr (h, ())),
       get_stats = (\<lambda>h. Inr (h, Map.empty)),
       check_stats = (\<lambda>h stats. Inr (h, ())),
       print_results = (\<lambda>h. Inr (h, ())),
       get_desc = (\<lambda>h. Inr (h, None)),
       plot_val_samples = (\<lambda>h batch ni. Inr (h, ())),
       plot_predictions = (\<lambda>h batch preds ni. Inr (h, ())),
       eval_json = (\<lambda>h stats. Inr (h, None)) \<rparr>"

text \<open>
  The collaborators that are not part of the file: device selection, the model backend,
  image-size checking, dataset resolution, the tensor operations of lines 54, 104 and 121,
  and the wall clock.  \<open>elapsed k i\<close> is the time in seconds that timer \<open>dt[k]\<close> measures
  around stage \<open>k\<close> of batch \<open>i\<close>.
\<close>

record ('v, 'w) env =
  select_device :: "string \<Rightarrow> int \<Rightarrow> error + torch_device"
  AutoBackend :: "'w \<Rightarrow> torch_device \<Rightarrow> bool \<Rightarrow> bool \<Rightarrow> error + 'v net"
  check_imgsz :: "int \<Rightarrow> int \<Rightarrow> error + int"
  check_dataset_yaml :: "string \<Rightarrow> error + dataset"
  check_dataset :: "locator \<Rightarrow> error + dataset"
  zeros_like :: "'v \<Rightarrow> 'v"
  tensor_add :: "'v \<Rightarrow> 'v \<Rightarrow> 'v"
  tensor_cpu :: "'v \<Rightarrow> 'v"
  tensor_div :: "'v \<Rightarrow> nat \<Rightarrow> 'v"
  elapsed :: "nat \<Rightarrow> nat \<Rightarrow> rat"

text \<open>Calling a method of \<open>self\<close>: the hook runs on its view of \<open>self\<close> and its changes are written back.\<close>

definition call_hook ::
  "('v, 'j, 'h) validator \<Rightarrow> (('j, 'h) hook_state \<Rightarrow> error + (('j, 'h) hook_state \<times> 'r)) \<Rightarrow>
   error + (('v, 'j, 'h) validator \<times> 'r)" where
  "call_hook v f =
     (case f (jdict v, sub_state v) of
        Inl e \<Rightarrow> Inl e
      | Inr (h, r) \<Rightarrow> Inr (v\<lparr>jdict := fst h, sub_state := snd h\<rparr>, r))"

subsection \<open>Mode resolution, lines 46 to 78\<close>

definition endswith :: "string \<Rightarrow> string \<Rightarrow> bool" where
  "endswith s t = (length t \<le> length s \<and> drop (length s - length t) s = t)"

text \<open>Truth value of a dataloader in \<open>self.dataloader or ...\<close>: \<open>None\<close> and a loader of length 0 are false.\<close>

definition loader_truthy :: "'v loader option \<Rightarrow> bool" where
  "loader_truthy d = (case d of None \<Rightarrow> False | Some l \<Rightarrow> batches l \<noteq> [])"

text \<open>
  The first argument of line 78, \<open>data.get("val") or data.set("test")\<close>: the validation path
  when it is there and not empty; otherwise the attribute \<open>set\<close> is looked up on the dict,
  which has none.
\<close>

definition split_path :: "dataset \<Rightarrow> error + string" where
  "split_path d =
     (case map_of d ''val'' of
        Some p \<Rightarrow> if p \<noteq> [] then Inr p else Inl (AttributeError ''dict object has no attribute set'')
      | None \<Rightarrow> Inl (AttributeError ''dict object has no attribute set''))"

text \<open>Lines 48 to 55.\<close>

definition resolve_embedded ::
  "('v, 'w) env \<Rightarrow> ('v, 'j, 'h) validator \<Rightarrow> ('v, 's) trainer \<Rightarrow>
   ('v, 's, 'j) event list \<times> (error + (('v, 'j, 'h) validator \<times> 'v net))" where
  "resolve_embedded E v tr =
     (let v1 = v\<lparr>device := Some (trainer_device tr), data := Some (trainer_data tr)\<rparr>;
          m0 = (case ema tr of Some m \<Rightarrow> m | None \<Rightarrow> trainer_model tr);
          h = (half (args v1) \<and> device_type (trainer_device tr) \<noteq> ''cpu'');
          v2 = v1\<lparr>args := (args v1)\<lparr>half := h\<rparr>\<rparr>;
          m1 = m0\<lparr>fp16 := h\<rparr>;
          v3 = v2\<lparr>model := Some m1, loss := Some (zeros_like E (loss_items tr))\<rparr>;
          v4 = v3\<lparr>args := (args v3)\<lparr>plots := (epoch tr = epochs tr - 1)\<rparr>\<rparr>
      in ret (v4, m1))"

text \<open>Lines 64 to 71: the batch size a backend forces.\<close>

definition force_batch_size ::
  "('v, 'j, 'h) validator \<Rightarrow> 'v net \<Rightarrow> int \<Rightarrow>
   ('v, 's, 'j) event list \<times> (error + ('v, 'j, 'h) validator)" where
  "force_batch_size v m isz =
     (if engine m then ret (v\<lparr>args := (args v)\<lparr>batch_size := net_batch_size m\<rparr>\<rparr>)
      else
        (let v1 = v\<lparr>device := Some (net_device m)\<rparr> in
         if \<not> pt m \<and> \<not> jit m then
           bind_r (emit (LogForcingBatchSize1 isz))
             (\<lambda>_. ret (v1\<lparr>args := (args v1)\<lparr>batch_size := 1\<rparr>\<rparr>))
         else ret v1))"

text \<open>Lines 73 to 76.\<close>

definition resolve_dataset :: "('v, 'w) env \<Rightarrow> locator \<Rightarrow> error + dataset" where
  "resolve_dataset E loc =
     (case loc of
        StrLoc s \<Rightarrow> if endswith s ''.yaml'' then check_dataset_yaml E s else check_dataset E loc
      | OtherLoc \<Rightarrow> check_dataset E loc)"

text \<open>Lines 77 and 78.\<close>

definition resolve_dataloader ::
  "('v, 's, 'j, 'h) hooks \<Rightarrow> ('v, 'j, 'h) validator \<Rightarrow> dataset \<Rightarrow>
   ('v, 's, 'j) event list \<times> (error + ('v, 'j, 'h) validator)" where
  "resolve_dataloader H v d =
     (if loader_truthy (dataloader v) then ret v
      else
        bind_r (lift (split_path d)) (\<lambda>p.
        bind_r (emit (GetDataloader p (batch_size (args v)))) (\<lambda>_.
        bind_r (lift (call_hook v (\<lambda>h. get_dataloader H h p (batch_size (args v))))) (\<lambda>(v1, dl).
        ret (v1\<lparr>dataloader := Some dl\<rparr>)))))"

text \<open>Lines 57 to 78.\<close>

definition resolve_standalone ::
  "('v, 'w) env \<Rightarrow> ('v, 's, 'j, 'h) hooks \<Rightarrow> ('v, 'j, 'h) validator \<Rightarrow> 'w option \<Rightarrow>
   ('v, 's, 'j) event list \<times> (error + (('v, 'j, 'h) validator \<times> 'v net))" where
  "resolve_standalone E H v mo =
     (case mo of
        None \<Rightarrow> throw (AssertionError ''Either trainer or model is needed for validation'')
      | Some w \<Rightarrow>
          bind_r (lift (select_device E (args_device (args v)) (batch_size (args v)))) (\<lambda>d.
          let v1 = v\<lparr>device := Some d\<rparr>;
              h = (half (args v1) \<and> device_type d \<noteq> ''cpu'');
              v2 = v1\<lparr>args := (args v1)\<lparr>half := h\<rparr>\<rparr>
          in
          bind_r (lift (AutoBackend E w d (dnn (args v2)) h)) (\<lambda>m.
          let v3 = v2\<lparr>model := Some m\<rparr> in
          bind_r (lift (check_imgsz E (imgsz (args v3)) (stride m))) (\<lambda>isz.
          bind_r (force_batch_size v3 m isz) (\<lambda>v4.
          bind_r (lift (resolve_dataset E (args_data (args v4)))) (\<lambda>d.
          bind_r (resolve_dataloader H v4 d) (\<lambda>v5.
          ret (v5, m))))))))"

text \<open>Lines 46 and 47: the trainer decides the mode; the model handle is read only without one.\<close>

definition resolve ::
  "('v, 'w) env \<Rightarrow> ('v, 's, 'j, 'h) hooks \<Rightarrow> ('v, 'j, 'h) validator \<Rightarrow>
   ('v, 's) trainer option \<Rightarrow> 'w option \<Rightarrow>
   ('v, 's, 'j) event list \<times> (error + (('v, 'j, 'h) validator \<times> 'v net))" where
  "resolve E H v trainer mo =
     (let v0 = v\<lparr>training := (trainer \<noteq> None)\<rparr> in
      case trainer of
        Some tr \<Rightarrow> resolve_embedded E v0 tr
      | None \<Rightarrow> resolve_standalone E H v0 mo)"

subsection \<open>The timers, line 82\<close>

text \<open>
  Modelled from the spec: the class \<open>Profile\<close> of \<open>ultralytics/yolo/utils/ops.py\<close>, which
  is not among the sources.  The spec describes four independent elapsed-time accumulators,
  one per pipeline stage; \<open>prof_t\<close> is the attribute \<open>t\<close> that line 118 reads, the total of
  the times measured so far, in seconds.
\<close>

record profile =
  prof_t :: rat

definition Profile :: profile where
  "Profile = \<lparr> prof_t = 0 \<rparr>"

definition timed :: "profile \<Rightarrow> rat \<Rightarrow> profile" where
  "timed p d = p\<lparr>prof_t := prof_t p + d\<rparr>"

type_synonym timers = "profile \<times> profile \<times> profile \<times> profile"

subsection \<open>The pipeline of one batch, lines 92 to 113\<close>

text \<open>Lines 103 and 104.  The augmented assignment reads \<open>self.loss\<close> before it calls the criterion.\<close>

definition loss_stage ::
  "('v, 'w) env \<Rightarrow> ('v, 's) trainer option \<Rightarrow> ('v, 'j, 'h) validator \<Rightarrow> nat \<Rightarrow> 'v \<Rightarrow> 'v batch \<Rightarrow>
   ('v, 's, 'j) event list \<times> (error + ('v, 'j, 'h) validator)" where
  "loss_stage E trainer v i preds b =
     (if training v then
        (case loss v of
           None \<Rightarrow> throw (AttributeError ''validator object has no attribute loss'')
         | Some l \<Rightarrow>
            (case trainer of
               None \<Rightarrow> throw (AttributeError ''NoneType object has no attribute criterion'')
             | Some tr \<Rightarrow>
                 bind_r (lift (criterion tr preds b)) (\<lambda>r.
                 bind_r (emit (Criterion i preds b (snd r))) (\<lambda>_.
                 ret (v\<lparr>loss := Some (tensor_add E l (snd r))\<rparr>)))))
      else ret v)"

text \<open>Lines 111 to 113.\<close>

definition plot_stage ::
  "('v, 's, 'j, 'h) hooks \<Rightarrow> ('v, 'j, 'h) validator \<Rightarrow> 'v batch \<Rightarrow> 'v \<Rightarrow> nat \<Rightarrow>
   ('v, 's, 'j) event list \<times> (error + ('v, 'j, 'h) validator)" where
  "plot_stage H v b preds i =
     (if plots (args v) \<and> i < 3 then
        bind_r (emit (PlotValSamples b i)) (\<lambda>_.
        bind_r (lift (call_hook v (\<lambda>h. plot_val_samples H h b i))) (\<lambda>(v1, _).
        bind_r (emit (PlotPredictions b preds i)) (\<lambda>_.
        bind_r (lift (call_hook v1 (\<lambda>h. plot_predictions H h b preds i))) (\<lambda>(v2, _).
        ret v2))))
      else ret v)"

text \<open>Line 99: \<open>batch["img"]\<close> raises \<open>KeyError\<close> when the key is missing.\<close>

definition batch_img :: "'v batch \<Rightarrow> error + 'v" where
  "batch_img b = (case map_of b ''img'' of None \<Rightarrow> Inl (KeyError ''img'') | Some x \<Rightarrow> Inr x)"

definition batch_pipeline ::
  "('v, 'w) env \<Rightarrow> ('v, 's, 'j, 'h) hooks \<Rightarrow> ('v, 's) trainer option \<Rightarrow> 'v net \<Rightarrow>
   ('v, 'j, 'h) validator \<times> timers \<Rightarrow> nat \<times> 'v batch \<Rightarrow>
   ('v, 's, 'j) event list \<times> (error + (('v, 'j, 'h) validator \<times> timers))" where
  "batch_pipeline E H trainer m st ib =
     (case st of (v, dt0, dt1, dt2, dt3) \<Rightarrow>
      case ib of (i, batch) \<Rightarrow>
        let v0 = v\<lparr>batch_i := Some i\<rparr> in
        bind_r (lift (call_hook v0 (\<lambda>h. preprocess H h batch))) (\<lambda>(v1, b).
        bind_r (emit (Preprocess i batch b)) (\<lambda>_.
        bind_r (lift (batch_img b)) (\<lambda>x.
        bind_r (lift (forward m x)) (\<lambda>preds.
        bind_r (emit (Infer i x preds)) (\<lambda>_.
        bind_r (loss_stage E trainer v1 i preds b) (\<lambda>v2.
        bind_r (lift (call_hook v2 (\<lambda>h. postprocess H h preds))) (\<lambda>(v3, preds').
        bind_r (emit (Postprocess i preds preds')) (\<lambda>_.
        bind_r (emit (UpdateMetrics i preds' b)) (\<lambda>_.
        bind_r (lift (call_hook v3 (\<lambda>h. update_metrics H h preds' b))) (\<lambda>(v4, _).
        bind_r (plot_stage H v4 b preds' i) (\<lambda>v5.
        ret (v5, timed dt0 (elapsed E 0 i), timed dt1 (elapsed E 1 i),
                 timed dt2 (elapsed E 2 i), timed dt3 (elapsed E 3 i))))))))))))))"

text \<open>Line 91: the loop over \<open>enumerate(bar)\<close>; an exception in a batch ends the loop.\<close>

fun batch_loop ::
  "('v, 'w) env \<Rightarrow> ('v, 's, 'j, 'h) hooks \<Rightarrow> ('v, 's) trainer option \<Rightarrow> 'v net \<Rightarrow>
   ('v, 'j, 'h) validator \<times> timers \<Rightarrow> (nat \<times> 'v batch) list \<Rightarrow>
   ('v, 's, 'j) event list \<times> (error + (('v, 'j, 'h) validator \<times> timers))" where
  "batch_loop E H trainer m st [] = ret st"
| "batch_loop E H trainer m st (ib # rest) =
     bind_r (batch_pipeline E H trainer m st ib) (\<lambda>st'. batch_loop E H trainer m st' rest)"

subsection \<open>Aggregation and report, lines 115 to 130\<close>

text \<open>Line 118.  Python's float division raises on a zero divisor.\<close>

definition compute_speed :: "timers \<Rightarrow> nat \<Rightarrow> error + speed_profile" where
  "compute_speed dt n =
     (case dt of (dt0, dt1, dt2, dt3) \<Rightarrow>
        if n = 0 then Inl (ZeroDivisionError ''float division by zero'')
        else Inr (prof_t dt0 / of_nat n * 1000, prof_t dt1 / of_nat n * 1000,
                  prof_t dt2 / of_nat n * 1000, prof_t dt3 / of_nat n * 1000))"

text \<open>Lines 115 to 118.\<close>

definition aggregate ::
  "('v, 's, 'j, 'h) hooks \<Rightarrow> ('v, 'j, 'h) validator \<Rightarrow> timers \<Rightarrow>
   ('v, 's, 'j) event list \<times> (error + (('v, 'j, 'h) validator \<times> 's stats_map))" where
  "aggregate H v dt =
     bind_r (lift (call_hook v (\<lambda>h. get_stats H h))) (\<lambda>(v1, stats).
     bind_r (emit (GetStats stats)) (\<lambda>_.
     bind_r (emit (CheckStats stats)) (\<lambda>_.
     bind_r (lift (call_hook v1 (\<lambda>h. check_stats H h stats))) (\<lambda>(v2, _).
     bind_r (emit PrintResults) (\<lambda>_.
     bind_r (lift (call_hook v2 (\<lambda>h. print_results H h))) (\<lambda>(v3, _).
     bind_r (lift (case dataloader v3 of
                     None \<Rightarrow> Inl (AttributeError ''NoneType object has no attribute dataset'')
                   | Some dl \<Rightarrow> compute_speed dt (dataset_len dl))) (\<lambda>sp.
     ret (v3\<lparr>speed := Some sp\<rparr>, stats))))))))"

text \<open>Truth value of \<open>self.jdict\<close> in line 125: \<open>None\<close> and the empty list are false.\<close>

definition jdict_truthy :: "'j list option \<Rightarrow> bool" where
  "jdict_truthy j = (case j of None \<Rightarrow> False | Some xs \<Rightarrow> xs \<noteq> [])"

text \<open>Line 126: \<open>self.save_dir / "predictions.json"\<close>.\<close>

definition predictions_path :: "string \<Rightarrow> string" where
  "predictions_path dir = dir @ ''/predictions.json''"

text \<open>Lines 120 and 121.\<close>

definition report_embedded ::
  "('v, 'w) env \<Rightarrow> ('v, 's) trainer \<Rightarrow> ('v, 'j, 'h) validator \<Rightarrow> 'v net \<Rightarrow> 's stats_map \<Rightarrow>
   ('v, 's, 'j) event list \<times> (error + (('v, 'j, 'h) validator \<times> 's stats_map option))" where
  "report_embedded E tr v m stats =
     (let m1 = m\<lparr>fp16 := False\<rparr>; v1 = v\<lparr>model := Some m1\<rparr> in
      case loss v1 of
        None \<Rightarrow> throw (AttributeError ''validator object has no attribute loss'')
      | Some l \<Rightarrow>
         (case dataloader v1 of
            None \<Rightarrow> throw (TypeError ''object of type NoneType has no len()'')
          | Some dl \<Rightarrow>
              ret (v1, Some (stats ++
                     label_loss_items tr (tensor_div E (tensor_cpu E l) (length (batches dl))) ''val''))))"

text \<open>Lines 123 to 130.\<close>

definition report_standalone ::
  "('v, 's, 'j, 'h) hooks \<Rightarrow> ('v, 'j, 'h) validator \<Rightarrow> 's stats_map \<Rightarrow>
   ('v, 's, 'j) event list \<times> (error + (('v, 'j, 'h) validator \<times> 's stats_map option))" where
  "report_standalone H v stats =
     (case speed v of
        None \<Rightarrow> throw (TypeError ''not enough arguments for format string'')
      | Some sp \<Rightarrow>
          bind_r (emit (LogSpeed sp)) (\<lambda>_.
          if save_json (args v) \<and> jdict_truthy (jdict v) then
            bind_r (emit (LogSaving (predictions_path (save_dir v)))) (\<lambda>_.
            bind_r (emit (JsonDump (predictions_path (save_dir v)) (the (jdict v)))) (\<lambda>_.
            bind_r (emit (EvalJson stats)) (\<lambda>_.
            bind_r (lift (call_hook v (\<lambda>h. eval_json H h stats))) (\<lambda>(v1, stats').
            ret (v1, stats')))))
          else ret (v, Some stats)))"

text \<open>Lines 119 to 130.\<close>

definition report ::
  "('v, 'w) env \<Rightarrow> ('v, 's, 'j, 'h) hooks \<Rightarrow> ('v, 's) trainer option \<Rightarrow>
   ('v, 'j, 'h) validator \<Rightarrow> 'v net \<Rightarrow> 's stats_map \<Rightarrow>
   ('v, 's, 'j) event list \<times> (error + (('v, 'j, 'h) validator \<times> 's stats_map option))" where
  "report E H trainer v m stats =
     (if training v then
        (case trainer of
           None \<Rightarrow> throw (AttributeError ''NoneType object has no attribute label_loss_items'')
         | Some tr \<Rightarrow> report_embedded E tr v m stats)
      else report_standalone H v stats)"

subsection \<open>The call, lines 41 to 130\<close>

text \<open>
  Lines 80 to 130, after the mode is resolved.  \<open>tqdm\<close> yields the batches of the dataloader
  in order and \<open>de_parallel\<close> returns the model it is given.
\<close>

definition validate ::
  "('v, 'w) env \<Rightarrow> ('v, 's, 'j, 'h) hooks \<Rightarrow> ('v, 's) trainer option \<Rightarrow>
   ('v, 'j, 'h) validator \<Rightarrow> 'v net \<Rightarrow>
   ('v, 's, 'j) event list \<times> (error + (('v, 'j, 'h) validator \<times> 's stats_map option))" where
  "validate E H trainer v m0 =
     (let m = m0\<lparr>eval_mode := True\<rparr>;
          v0 = v\<lparr>model := Some m\<rparr>;
          dt = (Profile, Profile, Profile, Profile)
      in
      case dataloader v0 of
        None \<Rightarrow> throw (TypeError ''object of type NoneType has no len()'')
      | Some dl \<Rightarrow>
          bind_r (emit GetDesc) (\<lambda>_.
          bind_r (lift (call_hook v0 (\<lambda>h. get_desc H h))) (\<lambda>(v1, desc).
          bind_r (emit InitMetrics) (\<lambda>_.
          bind_r (lift (call_hook v1 (\<lambda>h. init_metrics H h m))) (\<lambda>(v2, _).
          let v3 = v2\<lparr>jdict := Some []\<rparr> in
          bind_r (batch_loop E H trainer m (v3, dt) (enumerate 0 (batches dl))) (\<lambda>(v4, dt').
          bind_r (aggregate H v4 dt') (\<lambda>(v5, stats).
          report E H trainer v5 m stats)))))))"

text \<open>The body of \<open>__call__\<close>, without its decorator.\<close>

definition call ::
  "('v, 'w) env \<Rightarrow> ('v, 's, 'j, 'h) hooks \<Rightarrow> ('v, 'j, 'h) validator \<Rightarrow>
   ('v, 's) trainer option \<Rightarrow> 'w option \<Rightarrow>
   ('v, 's, 'j) event list \<times> (error + (('v, 'j, 'h) validator \<times> 's stats_map option))" where
  "call E H v trainer mo =
     bind_r (resolve E H v trainer mo) (\<lambda>(v1, m). validate E H trainer v1 m)"

subsection \<open>The decorator of line 40\<close>

text \<open>
  Modelled from the spec: the decorator \<open>smart_inference_mode\<close> of
  \<open>ultralytics/yolo/utils/torch_utils.py\<close>, which is not among the sources.  The spec
  describes a scoped inference context that disables gradient bookkeeping for the duration
  of the call and is released unconditionally on exit, including on exception.  The state
  of the library is one flag, \<open>True\<close> while gradient bookkeeping is disabled: entering the
  context saves the flag and sets it, leaving the context restores the saved flag, whatever
  the body did.
\<close>

definition inference_enter :: "bool \<Rightarrow> bool \<times> bool" where
  "inference_enter disabled = (True, disabled)"

definition inference_exit :: "bool \<Rightarrow> bool" where
  "inference_exit saved = saved"

definition smart_inference_mode ::
  "(bool \<Rightarrow> ('v, 's, 'j) event list \<times> 'r) \<Rightarrow> bool \<Rightarrow> bool \<times> ('v, 's, 'j) event list \<times> 'r" where
  "smart_inference_mode fn disabled =
     (case inference_enter disabled of (inside, saved) \<Rightarrow>
      case fn inside of (es, r) \<Rightarrow>
        (inference_exit saved, [EnterInferenceMode] @ es @ [ExitInferenceMode], r))"

text \<open>\<open>__call__\<close> as callers see it, lines 40 to 130.\<close>

definition decorated_call ::
  "('v, 'w) env \<Rightarrow> ('v, 's, 'j, 'h) hooks \<Rightarrow> ('v, 'j, 'h) validator \<Rightarrow>
   ('v, 's) trainer option \<Rightarrow> 'w option \<Rightarrow> bool \<Rightarrow>
   bool \<times> ('v, 's, 'j) event list \<times> (error + (('v, 'j, 'h) validator \<times> 's stats_map option))" where
  "decorated_call E H v trainer mo disabled =
     smart_inference_mode (\<lambda>inside. call E H v trainer mo) disabled"

subsection \<open>Reading a trace\<close>

datatype stage = PreprocessStage | InferStage | LossStage | PostprocessStage | UpdateStage

fun stage_of :: "('v, 's, 'j) event \<Rightarrow> (nat \<times> stage) option" where
  "stage_of (Preprocess i b b') = Some (i, PreprocessStage)"
| "stage_of (Infer i x p) = Some (i, InferStage)"
| "stage_of (Criterion i p b l) = Some (i, LossStage)"
| "stage_of (Postprocess i p p') = Some (i, PostprocessStage)"
| "stage_of (UpdateMetrics i p b) = Some (i, UpdateStage)"
| "stage_of _ = None"

text \<open>The pipeline stages of a trace, with the index of their batch.\<close>

definition stages :: "('v, 's, 'j) event list \<Rightarrow> (nat \<times> stage) list" where
  "stages es = List.map_filter stage_of es"

text \<open>The stages of one batch, in the order of the spec.\<close>

definition stages_of_batch :: "bool \<Rightarrow> nat \<Rightarrow> (nat \<times> stage) list" where
  "stages_of_batch embedded i =
     (if embedded
      then [(i, PreprocessStage), (i, InferStage), (i, LossStage), (i, PostprocessStage), (i, UpdateStage)]
      else [(i, PreprocessStage), (i, InferStage), (i, PostprocessStage), (i, UpdateStage)])"

text \<open>The stages of \<open>n\<close> batches numbered from \<open>k\<close>.\<close>

definition expected_stages :: "bool \<Rightarrow> nat \<Rightarrow> nat \<Rightarrow> (nat \<times> stage) list" where
  "expected_stages embedded k n = concat (map (stages_of_batch embedded) [k..<k + n])"

text \<open>The batches given to \<open>preprocess\<close>, in order.\<close>

fun preprocess_input :: "('v, 's, 'j) event \<Rightarrow> 'v batch option" where
  "preprocess_input (Preprocess i b b') = Some b"
| "preprocess_input _ = None"

definition preprocessed :: "('v, 's, 'j) event list \<Rightarrow> 'v batch list" where
  "preprocessed es = List.map_filter preprocess_input es"

fun is_update :: "('v, 's, 'j) event \<Rightarrow> bool" where
  "is_update (UpdateMetrics i p b) = True"
| "is_update _ = False"

text \<open>
  The data flow between the stages: \<open>cb\<close> is the batch the last \<open>preprocess\<close> returned and
  \<open>cp\<close> the predictions the last inference or \<open>postprocess\<close> returned.  Inference takes the
  \<open>img\<close> entry of \<open>cb\<close>; the criterion takes \<open>cp\<close> and \<open>cb\<close>; \<open>postprocess\<close> takes \<open>cp\<close>;
  \<open>update_metrics\<close> takes \<open>cp\<close> and \<open>cb\<close>.
\<close>

fun flows :: "'v batch option \<Rightarrow> 'v option \<Rightarrow> ('v, 's, 'j) event list \<Rightarrow> bool" where
  "flows cb cp [] = True"
| "flows cb cp (Preprocess i b b' # es) = flows (Some b') None es"
| "flows cb cp (Infer i x p # es) =
     ((case cb of None \<Rightarrow> False | Some b \<Rightarrow> map_of b ''img'' = Some x) \<and> flows cb (Some p) es)"
| "flows cb cp (Criterion i p b l # es) = (cp = Some p \<and> cb = Some b \<and> flows cb cp es)"
| "flows cb cp (Postprocess i p p' # es) = (cp = Some p \<and> flows cb (Some p') es)"
| "flows cb cp (UpdateMetrics i p b # es) = (cp = Some p \<and> cb = Some b \<and> flows cb cp es)"
| "flows cb cp (e # es) = flows cb cp es"

fun stats_result :: "('v, 's, 'j) event \<Rightarrow> 's stats_map option" where
  "stats_result (GetStats s) = Some s"
| "stats_result _ = None"

text \<open>What \<open>get_stats\<close> returned.\<close>

definition stats_returned :: "('v, 's, 'j) event list \<Rightarrow> 's stats_map list" where
  "stats_returned es = List.map_filter stats_result es"

fun criterion_result :: "('v, 's, 'j) event \<Rightarrow> 'v option" where
  "criterion_result (Criterion i p b l) = Some l"
| "criterion_result _ = None"

text \<open>The loss items the criterion returned, in order.\<close>

definition criterion_losses :: "('v, 's, 'j) event list \<Rightarrow> 'v list" where
  "criterion_losses es = List.map_filter criterion_result es"

fun is_forcing :: "('v, 's, 'j) event \<Rightarrow> bool" where
  "is_forcing (LogForcingBatchSize1 isz) = True"
| "is_forcing _ = False"

fun json_dump :: "('v, 's, 'j) event \<Rightarrow> (string \<times> 'j list) option" where
  "json_dump (JsonDump f js) = Some (f, js)"
| "json_dump _ = None"

text \<open>The files written, with their contents.\<close>

definition json_dumps :: "('v, 's, 'j) event list \<Rightarrow> (string \<times> 'j list) list" where
  "json_dumps es = List.map_filter json_dump es"

fun is_eval_json :: "('v, 's, 'j) event \<Rightarrow> bool" where
  "is_eval_json (EvalJson s) = True"
| "is_eval_json _ = False"

fun is_enter_exit :: "('v, 's, 'j) event \<Rightarrow> bool" where
  "is_enter_exit EnterInferenceMode = True"
| "is_enter_exit ExitInferenceMode = True"
| "is_enter_exit _ = False"

text \<open>The phase of the call to which an event belongs.\<close>

datatype phase = ResolvePhase | SetupPhase | LoopPhase | AggregatePhase | ReportPhase | DecoratorPhase

fun phase_of :: "('v, 's, 'j) event \<Rightarrow> phase" where
  "phase_of (LogForcingBatchSize1 isz) = ResolvePhase"
| "phase_of (GetDataloader p bs) = ResolvePhase"
| "phase_of GetDesc = SetupPhase"
| "phase_of InitMetrics = SetupPhase"
| "phase_of (Preprocess i b b') = LoopPhase"
| "phase_of (Infer i x p) = LoopPhase"
| "phase_of (Criterion i p b l) = LoopPhase"
| "phase_of (Postprocess i p p') = LoopPhase"
| "phase_of (UpdateMetrics i p b) = LoopPhase"
| "phase_of (PlotValSamples b i) = LoopPhase"
| "phase_of (PlotPredictions b p i) = LoopPhase"
| "phase_of (GetStats s) = AggregatePhase"
| "phase_of (CheckStats s) = AggregatePhase"
| "phase_of PrintResults = AggregatePhase"
| "phase_of (LogSpeed sp) = ReportPhase"
| "phase_of (LogSaving f) = ReportPhase"
| "phase_of (JsonDump f js) = ReportPhase"
| "phase_of (EvalJson s) = ReportPhase"
| "phase_of EnterInferenceMode = DecoratorPhase"
| "phase_of ExitInferenceMode = DecoratorPhase"

text \<open>
  Two states of \<open>self\<close> with the same configuration, dataloader, mode and run directory:
  what the hooks and the lines after line 78 leave as it is.
\<close>

definition same_run :: "('v, 'j, 'h) validator \<Rightarrow> ('v, 'j, 'h) validator \<Rightarrow> bool" where
  "same_run v v' =
     (args v' = args v \<and> dataloader v' = dataloader v \<and> training v' = training v \<and>
      save_dir v' = save_dir v)"

text \<open>The total time timer \<open>k\<close> measures over batches \<open>0\<close> to \<open>n - 1\<close>.\<close>

definition stage_total :: "('v, 'w) env \<Rightarrow> nat \<Rightarrow> nat \<Rightarrow> rat" where
  "stage_total E k n = (\<Sum>i < n. elapsed E k i)"

text \<open>The hooks before and after the loop do not raise.\<close>

definition lifecycle_hooks_return :: "('v, 's, 'j, 'h) hooks \<Rightarrow> bool" where
  "lifecycle_hooks_return H =
     ((\<forall>h. \<not> isl (get_desc H h)) \<and> (\<forall>h m. \<not> isl (init_metrics H h m)) \<and>
      (\<forall>h. \<not> isl (get_stats H h)) \<and> (\<forall>h s. \<not> isl (check_stats H h s)) \<and>
      (\<forall>h. \<not> isl (print_results H h)))"

text \<open>Putting events in front of a computation's trace.\<close>

definition prepend :: "'e list \<Rightarrow> 'e list \<times> 'r \<Rightarrow> 'e list \<times> 'r" where
  "prepend es m = (es @ fst m, snd m)"

subsection \<open>A concrete run\<close>

text \<open>
  Tensors are rational numbers; the model doubles its input, the criterion returns the
  predictions as loss items and every stage takes a hundredth of a second.
\<close>

definition ex_device :: torch_device where
  "ex_device = \<lparr> device_type = ''cpu'' \<rparr>"

definition ex_net :: "rat net" where
  "ex_net = \<lparr> forward = (\<lambda>x. Inr (2 * x)), fp16 = False, eval_mode = False, stride = 32,
     pt = True, jit = False, engine = False, net_batch_size = 1, net_device = ex_device \<rparr>"

definition ex_engine :: "rat net" where
  "ex_engine = ex_net\<lparr> pt := False, engine := True, net_batch_size := 8 \<rparr>"

definition ex_onnx :: "rat net" where
  "ex_onnx = ex_net\<lparr> pt := False \<rparr>"

definition ex_loader :: "rat loader" where
  "ex_loader = \<lparr> batches = [[(''img'', 1)], [(''img'', 3)]], dataset_len = 4 \<rparr>"

definition ex_empty_loader :: "rat loader" where
  "ex_empty_loader = \<lparr> batches = [], dataset_len = 0 \<rparr>"

definition ex_args :: run_args where
  "ex_args = \<lparr> half = False, plots = False, batch_size = 16, imgsz = 640, save_json = False,
     args_data = StrLoc ''coco128.yaml'', args_device = ''cpu'', dnn = False \<rparr>"

definition ex_validator :: "(rat, nat, unit) validator" where
  "ex_validator = \<lparr> dataloader = Some ex_loader, args = ex_args, model = None, data = None,
     device = None, batch_i = None, training = True, speed = None, jdict = None, loss = None,
     save_dir = ''runs/detect/val'', sub_state = () \<rparr>"

definition ex_trainer :: "(rat, rat) trainer" where
  "ex_trainer = \<lparr> trainer_device = ex_device, trainer_data = [(''val'', ''images/val'')],
     ema = None, trainer_model = ex_net, loss_items = 0, epoch = 0, epochs = 3,
     criterion = (\<lambda>preds b. Inr (preds, preds)),
     label_loss_items = (\<lambda>l prefix. [prefix @ ''/box_loss'' \<mapsto> l]) \<rparr>"

definition ex_env :: "(rat, string) env" where
  "ex_env = \<lparr> select_device = (\<lambda>d bs. Inr \<lparr> device_type = d \<rparr>),
     AutoBackend = (\<lambda>w d dn h. Inr (if endswith w ''.engine'' then ex_engine
                                    else if endswith w ''.onnx'' then ex_onnx else ex_net)),
     check_imgsz = (\<lambda>sz s. Inr sz),
     check_dataset_yaml = (\<lambda>s. Inr [(''val'', ''images/val''), (''test'', ''images/test'')]),
     check_dataset = (\<lambda>l. Inr [(''test'', ''images/test'')]),
     zeros_like = (\<lambda>x. 0), tensor_add = (\<lambda>x y. x + y), tensor_cpu = (\<lambda>x. x),
     tensor_div = (\<lambda>x n. x / of_nat n),
     elapsed = (\<lambda>k i. 1 / 100) \<rparr>"

text \<open>A subclass that builds a dataloader and keeps one prediction record per batch.\<close>

definition ex_hooks :: "(rat, rat, nat, unit) hooks" where
  "ex_hooks = BaseValidator
     \<lparr> get_dataloader := (\<lambda>h p bs. Inr (h, ex_loader)),
       update_metrics := (\<lambda>h preds b. Inr ((map_option (\<lambda>js. js @ [0]) (fst h), snd h), ())) \<rparr>"

text \<open>In the concrete run, the criterion fails on the second batch.\<close>

definition ex_failing_trainer :: "(rat, rat) trainer" where
  "ex_failing_trainer =
     ex_trainer\<lparr> criterion := (\<lambda>preds b. if preds = 6 then Inl (Raised ''criterion'') else Inr (preds, preds)) \<rparr>"

section \<open>Properties\<close>

subsection \<open>Computations\<close>

lemma fst_prepend [simp]: "fst (prepend es m) = es @ fst m"
  by (simp add: prepend_def)

lemma snd_prepend [simp]: "snd (prepend es m) = snd m"
  by (simp add: prepend_def)

lemma prepend_pair [simp]: "prepend es (es', r) = (es @ es', r)"
  by (simp add: prepend_def)

lemma prepend_Nil [simp]: "prepend [] m = m"
  by (simp add: prepend_def)

lemma bind_r_Inl [simp]: "bind_r (es, Inl e) f = (es, Inl e)"
  by (simp add: bind_r_def)

lemma bind_r_Inr [simp]: "bind_r (es, Inr x) f = prepend es (f x)"
  by (simp add: bind_r_def prepend_def)

lemma bind_r_ret [simp]: "bind_r (ret x) f = f x"
  by (simp add: ret_def)

lemma bind_r_throw [simp]: "bind_r (throw e) f = throw e"
  by (simp add: throw_def)

lemma bind_r_emit [simp]: "bind_r (emit e) f = prepend [e] (f ())"
  by (simp add: emit_def)

lemma bind_r_lift: "bind_r (lift r) f = (case r of Inl e \<Rightarrow> throw e | Inr x \<Rightarrow> f x)"
  by (cases r) (simp_all add: lift_def throw_def)

lemma bind_r_prepend [simp]: "bind_r (prepend es m) f = prepend es (bind_r m f)"
  by (cases m; cases "snd m") (auto simp: bind_r_def prepend_def)

lemma fst_bind_r:
  "fst (bind_r m f) = (case snd m of Inl e \<Rightarrow> fst m | Inr x \<Rightarrow> fst m @ fst (f x))"
  by (simp add: bind_r_def split: sum.splits)

lemma snd_bind_r:
  "snd (bind_r m f) = (case snd m of Inl e \<Rightarrow> Inl e | Inr x \<Rightarrow> snd (f x))"
  by (simp add: bind_r_def split: sum.splits)

lemma fst_ret [simp]: "fst (ret x) = []"
  by (simp add: ret_def)

lemma snd_ret [simp]: "snd (ret x) = Inr x"
  by (simp add: ret_def)

lemma fst_throw [simp]: "fst (throw e) = []"
  by (simp add: throw_def)

lemma snd_throw [simp]: "snd (throw e) = Inl e"
  by (simp add: throw_def)

lemmas run_defs = ret_def throw_def emit_def lift_def

lemmas call_defs = call_def resolve_def resolve_embedded_def resolve_standalone_def validate_def
  call_hook_def Let_def enumerate_eq_zip batch_pipeline_def loss_stage_def plot_stage_def
  batch_img_def aggregate_def compute_speed_def report_def report_embedded_def
  report_standalone_def Profile_def timed_def force_batch_size_def resolve_dataset_def
  resolve_dataloader_def split_path_def loader_truthy_def jdict_truthy_def predictions_path_def
  endswith_def

lemmas ex_defs = ex_validator_def ex_trainer_def ex_env_def ex_net_def ex_engine_def ex_onnx_def ex_loader_def
  ex_empty_loader_def ex_args_def ex_device_def ex_hooks_def ex_failing_trainer_def BaseValidator_def

subsection \<open>The phase of every event\<close>

lemma all_bind_r:
  assumes "list_all P (fst m)" and "\<And>x. snd m = Inr x \<Longrightarrow> list_all P (fst (f x))"
  shows "list_all P (fst (bind_r m f))"
  using assms by (simp add: fst_bind_r split: sum.splits)

lemma all_lift [simp]: "list_all P (fst (lift r))"
  by (simp add: lift_def)

lemma all_emit [simp]: "list_all P (fst (emit e)) = P e"
  by (simp add: emit_def)

lemma list_all_weaken: "list_all P xs \<Longrightarrow> (\<And>x. P x \<Longrightarrow> Q x) \<Longrightarrow> list_all Q xs"
  by (induction xs) auto

lemma resolve_phase: "list_all (\<lambda>e. phase_of e = ResolvePhase) (fst (resolve E H v trainer mo))"
  unfolding resolve_def resolve_embedded_def resolve_standalone_def resolve_dataloader_def
    force_batch_size_def Let_def
  by (auto split: option.splits prod.splits intro!: all_bind_r)

lemma plot_stage_phase: "list_all (\<lambda>e. phase_of e = LoopPhase) (fst (plot_stage H v b p i))"
  unfolding plot_stage_def
  by (auto split: option.splits prod.splits intro!: all_bind_r)

lemma loss_stage_phase: "list_all (\<lambda>e. phase_of e = LoopPhase) (fst (loss_stage E tr v i p b))"
  unfolding loss_stage_def
  by (auto split: option.splits prod.splits intro!: all_bind_r)

lemma batch_pipeline_phase:
  "list_all (\<lambda>e. phase_of e = LoopPhase) (fst (batch_pipeline E H tr m st ib))"
  unfolding batch_pipeline_def Let_def
  by (auto split: option.splits prod.splits intro!: all_bind_r plot_stage_phase loss_stage_phase)

lemma batch_loop_phase:
  "list_all (\<lambda>e. phase_of e = LoopPhase) (fst (batch_loop E H tr m st ibs))"
  by (induction ibs arbitrary: st) (auto intro!: all_bind_r batch_pipeline_phase)

lemma aggregate_phase: "list_all (\<lambda>e. phase_of e = AggregatePhase) (fst (aggregate H v dt))"
  unfolding aggregate_def
  by (auto split: option.splits prod.splits intro!: all_bind_r)

lemma report_phase: "list_all (\<lambda>e. phase_of e = ReportPhase) (fst (report E H tr v m s))"
  unfolding report_def report_embedded_def report_standalone_def Let_def
  by (auto split: option.splits prod.splits intro!: all_bind_r)

lemma call_phase: "list_all (\<lambda>e. phase_of e \<noteq> DecoratorPhase) (fst (call E H v tr mo))"
  unfolding call_def validate_def Let_def
  by (auto split: option.splits prod.splits
      intro!: all_bind_r list_all_weaken[OF resolve_phase] list_all_weaken[OF batch_loop_phase]
         list_all_weaken[OF aggregate_phase] list_all_weaken[OF report_phase])

subsection \<open>Mode resolution\<close>

text \<open>
  C1, as the spec states it, fails: a call supplied with both a trainer handle and a model
  handle does not raise.  In the concrete run below both are given, the embedded path runs
  and the call returns.
\<close>

theorem both_handles_counterexample:
  "\<not> isl (snd (call ex_env BaseValidator ex_validator (Some ex_trainer) (Some ''yolov8n.pt'')))"
  by (simp add: call_defs ex_defs run_defs)

text \<open>
  C1, amended: the trainer handle alone decides the path.  With a trainer handle the
  embedded resolution runs, whatever the model handle is, and the call is the call
  without a model handle; without a trainer handle the standalone resolution runs; with
  neither handle the call raises the assertion error of line 57 before anything else
  happens.
\<close>

theorem mode_resolution:
  "call E H v None None =
     ([], Inl (AssertionError ''Either trainer or model is needed for validation'')) \<and>
   call E H v (Some tr) mo = call E H v (Some tr) None \<and>
   resolve E H v (Some tr) mo = resolve_embedded E (v\<lparr>training := True\<rparr>) tr \<and>
   resolve E H v None (Some w) = resolve_standalone E H (v\<lparr>training := False\<rparr>) (Some w)"
  by (simp add: call_def resolve_def resolve_standalone_def throw_def)

lemma call_hook_keeps:
  "call_hook v f = Inr (v', r) \<Longrightarrow>
     args v' = args v \<and> dataloader v' = dataloader v \<and> training v' = training v \<and>
     loss v' = loss v \<and> save_dir v' = save_dir v \<and> speed v' = speed v \<and> model v' = model v"
  by (auto simp: call_hook_def split: sum.splits prod.splits)

lemma resolve_dataloader_result:
  assumes "snd (resolve_dataloader H v d) = Inr v'"
  shows "args v' = args v \<and> \<not> list_ex is_forcing (fst (resolve_dataloader H v d))"
  using assms
  by (auto simp: resolve_dataloader_def bind_r_lift split: if_splits sum.splits prod.splits
      dest: call_hook_keeps)

lemma force_batch_size_result:
  "force_batch_size v m isz =
     ((if \<not> engine m \<and> \<not> pt m \<and> \<not> jit m then [LogForcingBatchSize1 isz] else []),
      Inr (v\<lparr>device := (if engine m then device v else Some (net_device m)),
              args := (args v)\<lparr>batch_size :=
                 (if engine m then net_batch_size m
                  else if \<not> pt m \<and> \<not> jit m then 1 else batch_size (args v))\<rparr>\<rparr>))"
  by (simp add: force_batch_size_def ret_def Let_def)

text \<open>
  In the concrete run a compiled engine, which reports neither the native nor the scripted
  format, replaces the configured batch size 16 by its fixed batch size 8, and nothing is
  logged.
\<close>

lemma engine_backend_run:
  "\<not> isl (snd (resolve ex_env ex_hooks ex_validator None (Some ''yolov8n.engine''))) \<and>
   batch_size (args (fst (projr
     (snd (resolve ex_env ex_hooks ex_validator None (Some ''yolov8n.engine'')))))) = 8 \<and>
   \<not> pt (snd (projr (snd (resolve ex_env ex_hooks ex_validator None (Some ''yolov8n.engine''))))) \<and>
   \<not> jit (snd (projr (snd (resolve ex_env ex_hooks ex_validator None (Some ''yolov8n.engine''))))) \<and>
   \<not> list_ex is_forcing (fst (resolve ex_env ex_hooks ex_validator None (Some ''yolov8n.engine'')))"
  by (simp add: call_defs ex_defs run_defs)

text \<open>
  C2: when the standalone resolution returns, the batch size is the backend's fixed batch
  size for a compiled engine; otherwise it is overwritten to 1, by line 69, whose message
  is then in the trace, if and only if the backend reports neither the native nor the
  scripted format, and it is the configured batch size when the backend reports one of
  the two.
\<close>

theorem forced_batch_size:
  assumes "snd (resolve E H v None (Some w)) = Inr (v', m)"
  shows "(list_ex is_forcing (fst (resolve E H v None (Some w))) \<longleftrightarrow>
            \<not> engine m \<and> \<not> pt m \<and> \<not> jit m) \<and>
         batch_size (args v') =
           (if engine m then net_batch_size m
            else if \<not> pt m \<and> \<not> jit m then 1 else batch_size (args v))"
  using assms
  apply (simp add: resolve_def resolve_standalone_def bind_r_lift Let_def force_batch_size_result
       split: sum.splits)
  apply (auto simp: snd_bind_r fst_bind_r split: sum.splits dest!: resolve_dataloader_result)
  done

theorem forced_batch_size_witness:
  "list_ex is_forcing (fst (resolve ex_env ex_hooks ex_validator None (Some ''yolov8n.onnx''))) \<and>
   map_sum id (\<lambda>(v, m). (batch_size (args v), engine m, pt m, jit m))
     (snd (resolve ex_env ex_hooks ex_validator None (Some ''yolov8n.onnx''))) =
     Inr (1, False, False, False)"
proof -
  let ?R = "resolve ex_env ex_hooks ex_validator None (Some ''yolov8n.onnx'')"
  have flags: "map_sum id (\<lambda>(v, m). (engine m, pt m, jit m)) (snd ?R) = Inr (False, False, False)"
    by (simp add: call_defs ex_defs run_defs)
  then obtain v' m where r: "snd ?R = Inr (v', m)"
    by (cases "snd ?R") auto
  from forced_batch_size [OF r] flags r show ?thesis
    by simp
qed

subsection \<open>The dataloader of a standalone run\<close>

text \<open>
  With no dataloader and a validation path in the dataset descriptor, \<open>get_dataloader\<close> is
  called on that path and the batch size of the configuration.
\<close>

lemma val_split_dataloader:
  assumes "map_of d ''val'' = Some p" and "p \<noteq> []"
  shows "fst (resolve_dataloader H (v\<lparr>dataloader := None\<rparr>) d) = [GetDataloader p (batch_size (args v))]"
  using assms
  by (simp add: resolve_dataloader_def loader_truthy_def split_path_def bind_r_lift
      split: sum.splits prod.splits)

text \<open>
  C8 holds of the validation split and fails of the fallback.  When the descriptor has a
  test path and no validation path, line 78 evaluates \<open>data.set("test")\<close>: the call raises
  \<open>AttributeError\<close> and no dataloader is built, for every validator and every
  \<open>get_dataloader\<close>; so does the whole call of the concrete run, whose descriptor has the
  test path \<open>images/test\<close> only.
\<close>

theorem test_split_fallback_raises:
  "resolve_dataloader H (v\<lparr>dataloader := None\<rparr>) [(''test'', p)] =
     ([], Inl (AttributeError ''dict object has no attribute set'')) \<and>
   call ex_env ex_hooks
     (ex_validator\<lparr>dataloader := None, args := ex_args\<lparr>args_data := StrLoc ''datasets/mnist''\<rparr>\<rparr>)
     None (Some ''yolov8n.pt'') =
     ([], Inl (AttributeError ''dict object has no attribute set''))"
proof
  show "resolve_dataloader H (v\<lparr>dataloader := None\<rparr>) [(''test'', p)] =
     ([], Inl (AttributeError ''dict object has no attribute set''))"
    by (simp add: resolve_dataloader_def loader_truthy_def split_path_def bind_r_lift throw_def)
  show "call ex_env ex_hooks
     (ex_validator\<lparr>dataloader := None, args := ex_args\<lparr>args_data := StrLoc ''datasets/mnist''\<rparr>\<rparr>)
     None (Some ''yolov8n.pt'') =
     ([], Inl (AttributeError ''dict object has no attribute set''))"
    by (simp add: call_defs ex_defs run_defs)
qed

subsection \<open>The default \<open>eval_json\<close>\<close>

text \<open>
  C6 fails on the code: the \<open>eval_json\<close> of \<open>BaseValidator\<close> is \<open>pass\<close>, so it returns
  \<open>None\<close>, line 129 assigns that to \<open>stats\<close> and line 130 returns it.  After an export, the
  report of a validator with the default \<open>eval_json\<close> returns \<open>None\<close> whatever the stats map
  was; so does the whole call of the concrete run, in which a subclass has filled
  \<open>jdict\<close> and JSON export is requested.
\<close>

theorem default_eval_json_returns_None:
  "report_standalone BaseValidator
     (v\<lparr>speed := Some sp, jdict := Some (j # js), args := (args v)\<lparr>save_json := True\<rparr>\<rparr>) stats =
   ([LogSpeed sp, LogSaving (save_dir v @ ''/predictions.json''),
     JsonDump (save_dir v @ ''/predictions.json'') (j # js), EvalJson stats],
    Inr (v\<lparr>speed := Some sp, jdict := Some (j # js), args := (args v)\<lparr>save_json := True\<rparr>\<rparr>, None)) \<and>
   map_sum id snd
     (snd (call ex_env ex_hooks (ex_validator\<lparr>args := ex_args\<lparr>save_json := True\<rparr>\<rparr>)
        None (Some ''yolov8n.pt''))) = Inr None"
proof
  show "report_standalone BaseValidator
     (v\<lparr>speed := Some sp, jdict := Some (j # js), args := (args v)\<lparr>save_json := True\<rparr>\<rparr>) stats =
   ([LogSpeed sp, LogSaving (save_dir v @ ''/predictions.json''),
     JsonDump (save_dir v @ ''/predictions.json'') (j # js), EvalJson stats],
    Inr (v\<lparr>speed := Some sp, jdict := Some (j # js), args := (args v)\<lparr>save_json := True\<rparr>\<rparr>, None))"
    by (simp add: report_standalone_def jdict_truthy_def predictions_path_def BaseValidator_def
        call_hook_def bind_r_lift ret_def)
  show "map_sum id snd
     (snd (call ex_env ex_hooks (ex_validator\<lparr>args := ex_args\<lparr>save_json := True\<rparr>\<rparr>)
        None (Some ''yolov8n.pt''))) = Inr None"
    by (simp add: call_defs ex_defs run_defs)
qed

subsection \<open>The batch loop\<close>

lemma same_run_refl [simp]: "same_run v v"
  by (simp add: same_run_def)

lemma same_run_trans: "same_run v v' \<Longrightarrow> same_run v' v'' \<Longrightarrow> same_run v v''"
  by (simp add: same_run_def)

lemma call_hook_same:
  "call_hook v f = Inr (v', r) \<Longrightarrow> same_run v v' \<and> loss v' = loss v \<and> speed v' = speed v"
  by (auto simp: call_hook_def same_run_def split: sum.splits prod.splits)

lemma map_filter_append: "List.map_filter f (xs @ ys) = List.map_filter f xs @ List.map_filter f ys"
  by (simp add: List.map_filter_def)

lemma map_filter_none: "list_all (\<lambda>x. f x = None) xs \<Longrightarrow> List.map_filter f xs = []"
  by (induction xs) (auto simp: List.map_filter_def)

lemma map_filter_Cons:
  "List.map_filter f (x # xs) =
     (case f x of None \<Rightarrow> List.map_filter f xs | Some y \<Rightarrow> y # List.map_filter f xs)"
  by (simp add: List.map_filter_def split: option.splits)

lemma map_filter_Nil: "List.map_filter f [] = []"
  by (simp add: List.map_filter_def)

lemma bind_r_returns:
  assumes "snd (bind_r m f) = Inr y"
  obtains x where "snd m = Inr x" and "snd (f x) = Inr y" and "fst (bind_r m f) = fst m @ fst (f x)"
  using assms by (cases "snd m") (auto simp: bind_r_def)

lemma plot_stage_returns:
  assumes "snd (plot_stage H v b p i) = Inr v'"
  shows "same_run v v' \<and> loss v' = loss v \<and>
         list_all (\<lambda>e. phase_of e = LoopPhase \<and> stage_of e = None \<and> criterion_result e = None) (fst (plot_stage H v b p i))"
  using assms unfolding plot_stage_def
  by (auto simp: bind_r_lift snd_bind_r split: if_splits sum.splits prod.splits
      dest!: call_hook_same intro: same_run_trans)

lemma loss_stage_returns:
  assumes "snd (loss_stage E tr v i p b) = Inr v'"
  shows "\<exists>cs. fst (loss_stage E tr v i p b) = map (Criterion i p b) cs \<and>
           length cs = (if training v then 1 else 0) \<and> same_run v v' \<and>
           loss v' = map_option (\<lambda>l. foldl (tensor_add E) l cs) (loss v)"
proof (cases "training v")
  case False
  with assms have "v' = v" and "fst (loss_stage E tr v i p b) = []"
    by (simp_all add: loss_stage_def)
  then show ?thesis
    using False by (auto simp: option.map_ident intro!: exI[of _ "[]"])
next
  case True
  with assms obtain l t r where l: "loss v = Some l" and t: "tr = Some t"
     and r: "criterion t p b = Inr r"
    by (auto simp: loss_stage_def bind_r_lift split: option.splits sum.splits)
  with assms True have "v' = v\<lparr>loss := Some (tensor_add E l (snd r))\<rparr>"
    and "fst (loss_stage E tr v i p b) = [Criterion i p b (snd r)]"
    by (simp_all add: loss_stage_def bind_r_lift)
  then show ?thesis
    using True l by (auto simp: same_run_def intro!: exI[of _ "[snd r]"])
qed

lemma batch_pipeline_returns:
  assumes "snd (batch_pipeline E H tr m (v, dt0, dt1, dt2, dt3) (i, b)) = Inr (v', dt')"
  shows "\<exists>b' x p cs p' pl.
           fst (batch_pipeline E H tr m (v, dt0, dt1, dt2, dt3) (i, b)) =
             [Preprocess i b b', Infer i x p] @ map (Criterion i p b') cs @
             [Postprocess i p p', UpdateMetrics i p' b'] @ pl \<and>
           map_of b' ''img'' = Some x \<and>
           length cs = (if training v then 1 else 0) \<and>
           list_all (\<lambda>e. phase_of e = LoopPhase \<and> stage_of e = None \<and> criterion_result e = None) pl \<and>
           same_run v v' \<and>
           loss v' = map_option (\<lambda>l. foldl (tensor_add E) l cs) (loss v) \<and>
           dt' = (timed dt0 (elapsed E 0 i), timed dt1 (elapsed E 1 i),
                  timed dt2 (elapsed E 2 i), timed dt3 (elapsed E 3 i))"
proof -
  let ?v0 = "v\<lparr>batch_i := Some i\<rparr>"
  from assms obtain v1 b' where pre: "call_hook ?v0 (\<lambda>h. preprocess H h b) = Inr (v1, b')"
    by (auto simp: batch_pipeline_def Let_def bind_r_lift split: sum.splits)
  from assms pre obtain x where x: "batch_img b' = Inr x"
    by (auto simp: batch_pipeline_def Let_def bind_r_lift split: sum.splits)
  from assms pre x obtain p where p: "forward m x = Inr p"
    by (auto simp: batch_pipeline_def Let_def bind_r_lift split: sum.splits)
  from assms pre x p obtain v2 where ls: "snd (loss_stage E tr v1 i p b') = Inr v2"
    by (auto simp: batch_pipeline_def Let_def bind_r_lift snd_bind_r split: sum.splits)
  from assms pre x p ls obtain v3 p' where post: "call_hook v2 (\<lambda>h. postprocess H h p) = Inr (v3, p')"
    by (auto simp: batch_pipeline_def Let_def bind_r_lift snd_bind_r split: sum.splits)
  from assms pre x p ls post obtain v4 u where upd: "call_hook v3 (\<lambda>h. update_metrics H h p' b') = Inr (v4, u)"
    by (auto simp: batch_pipeline_def Let_def bind_r_lift snd_bind_r split: sum.splits)
  from assms pre x p ls post upd have pl: "snd (plot_stage H v4 b' p' i) = Inr v'"
    and dt: "dt' = (timed dt0 (elapsed E 0 i), timed dt1 (elapsed E 1 i),
                  timed dt2 (elapsed E 2 i), timed dt3 (elapsed E 3 i))"
    by (auto simp: batch_pipeline_def Let_def bind_r_lift snd_bind_r split: sum.splits)
  from pre x p ls post upd pl
  have tr: "fst (batch_pipeline E H tr m (v, dt0, dt1, dt2, dt3) (i, b)) =
      [Preprocess i b b', Infer i x p] @ fst (loss_stage E tr v1 i p b') @
      [Postprocess i p p', UpdateMetrics i p' b'] @ fst (plot_stage H v4 b' p' i)"
    by (simp add: batch_pipeline_def Let_def bind_r_lift fst_bind_r)
  from loss_stage_returns [OF ls] obtain cs where
    cs: "fst (loss_stage E tr v1 i p b') = map (Criterion i p b') cs"
       "length cs = (if training v1 then 1 else 0)" "same_run v1 v2"
       "loss v2 = map_option (\<lambda>l. foldl (tensor_add E) l cs) (loss v1)"
    by blast
  have s01: "same_run v v1" "loss v1 = loss v"
    using call_hook_same [OF pre] by (simp_all add: same_run_def)
  have s23: "same_run v2 v3" "loss v3 = loss v2"
    using call_hook_same [OF post] by simp_all
  have s34: "same_run v3 v4" "loss v4 = loss v3"
    using call_hook_same [OF upd] by simp_all
  note s4 = plot_stage_returns [OF pl]
  have same: "same_run v v'"
    using s01 cs(3) s23 s34 s4 by (simp add: same_run_def)
  have img: "map_of b' ''img'' = Some x"
    using x by (simp add: batch_img_def split: option.splits)
  show ?thesis
    apply (rule exI[of _ b'], rule exI[of _ x], rule exI[of _ p], rule exI[of _ cs],
        rule exI[of _ p'], rule exI[of _ "fst (plot_stage H v4 b' p' i)"])
    using tr cs s01 s23 s34 s4 same img dt by (simp add: same_run_def)
qed


lemma stage_of_Criterion: "List.map_filter stage_of (map (Criterion i p b) cs) = map (\<lambda>c. (i, LossStage)) cs"
  by (induction cs) (simp_all add: map_filter_Cons map_filter_Nil)

lemma criterion_result_Criterion: "List.map_filter criterion_result (map (Criterion i p b) cs) = cs"
  by (induction cs) (simp_all add: map_filter_Cons map_filter_Nil)

lemma preprocess_input_Criterion: "List.map_filter preprocess_input (map (Criterion i p b) cs) = []"
  by (induction cs) (simp_all add: map_filter_Cons map_filter_Nil)

lemma filter_update_Criterion: "filter is_update (map (Criterion i p b) cs) = []"
  by (induction cs) simp_all

lemma stage_none_others:
  "stage_of e = None \<Longrightarrow> preprocess_input e = None \<and> \<not> is_update e \<and> criterion_result e = None"
  by (cases e) simp_all

lemma flows_skip:
  "list_all (\<lambda>e. stage_of e = None) pl \<Longrightarrow> flows cb cp (pl @ rest) = flows cb cp rest"
proof (induction pl)
  case Nil
  then show ?case by simp
next
  case (Cons e pl)
  then show ?case by (cases e) simp_all
qed

lemma flows_Criterion:
  "length cs \<le> 1 \<Longrightarrow>
   flows (Some b) (Some p) (map (Criterion i p b) cs @ rest) = flows (Some b) (Some p) rest"
  by (cases cs) simp_all

lemma batch_trace_flows:
  assumes "map_of b' ''img'' = Some x" and "length cs \<le> 1"
    and "list_all (\<lambda>e. stage_of e = None) pl"
  shows "flows cb cp (([Preprocess i b b', Infer i x p] @ map (Criterion i p b') cs @
           [Postprocess i p p', UpdateMetrics i p' b'] @ pl) @ rest) = flows (Some b') (Some p') rest"
  using assms by (simp add: flows_Criterion flows_skip)

lemma batch_trace_stages:
  assumes "length cs = (if e then 1 else 0)" and "list_all (\<lambda>e. stage_of e = None) pl"
  shows "stages ([Preprocess i b b', Infer i x p] @ map (Criterion i p b') cs @
           [Postprocess i p p', UpdateMetrics i p' b'] @ pl) = stages_of_batch e i"
proof -
  have "cs = [] \<or> (\<exists>c. cs = [c])"
    using assms(1) by (cases cs) (auto split: if_splits)
  then show ?thesis
    using assms
    by (auto simp: stages_def stages_of_batch_def map_filter_append map_filter_Cons map_filter_Nil
        map_filter_none split: if_splits)
qed

lemma list_all_conj1: "list_all (\<lambda>e. P e \<and> Q e) xs \<Longrightarrow> list_all P xs"
  by (induction xs) auto

lemma batch_trace_observed:
  assumes "list_all (\<lambda>e. stage_of e = None) pl"
  shows "preprocessed ([Preprocess i b b', Infer i x p] @ map (Criterion i p b') cs @
           [Postprocess i p p', UpdateMetrics i p' b'] @ pl) = [b]"
    and "filter is_update ([Preprocess i b b', Infer i x p] @ map (Criterion i p b') cs @
           [Postprocess i p p', UpdateMetrics i p' b'] @ pl) = [UpdateMetrics i p' b']"
    and "criterion_losses ([Preprocess i b b', Infer i x p] @ map (Criterion i p b') cs @
           [Postprocess i p p', UpdateMetrics i p' b'] @ pl) = cs"
proof -
  have a: "list_all (\<lambda>e. preprocess_input e = None) pl" "list_all (\<lambda>e. \<not> is_update e) pl"
       "list_all (\<lambda>e. criterion_result e = None) pl"
    using assms by (auto intro: list_all_weaken dest: stage_none_others)
  then have f: "filter is_update pl = []"
    by (induction pl) auto
  show "preprocessed ([Preprocess i b b', Infer i x p] @ map (Criterion i p b') cs @
           [Postprocess i p p', UpdateMetrics i p' b'] @ pl) = [b]"
    using a by (simp add: preprocessed_def map_filter_append map_filter_Cons map_filter_Nil
        map_filter_none preprocess_input_Criterion)
  show "filter is_update ([Preprocess i b b', Infer i x p] @ map (Criterion i p b') cs @
           [Postprocess i p p', UpdateMetrics i p' b'] @ pl) = [UpdateMetrics i p' b']"
    using f by (simp add: filter_update_Criterion)
  show "criterion_losses ([Preprocess i b b', Infer i x p] @ map (Criterion i p b') cs @
           [Postprocess i p p', UpdateMetrics i p' b'] @ pl) = cs"
    using a by (simp add: criterion_losses_def map_filter_append map_filter_Cons map_filter_Nil
        map_filter_none criterion_result_Criterion)
qed


lemma batch_pipeline_observed:
  assumes "snd (batch_pipeline E H tr m (v, dt0, dt1, dt2, dt3) (i, b)) = Inr (v', dt')"
  shows "stages (fst (batch_pipeline E H tr m (v, dt0, dt1, dt2, dt3) (i, b))) =
           stages_of_batch (training v) i"
    and "preprocessed (fst (batch_pipeline E H tr m (v, dt0, dt1, dt2, dt3) (i, b))) = [b]"
    and "length (filter is_update (fst (batch_pipeline E H tr m (v, dt0, dt1, dt2, dt3) (i, b)))) = 1"
    and "loss v' = map_option (\<lambda>l. foldl (tensor_add E) l
            (criterion_losses (fst (batch_pipeline E H tr m (v, dt0, dt1, dt2, dt3) (i, b))))) (loss v)"
    and "same_run v v'"
    and "dt' = (timed dt0 (elapsed E 0 i), timed dt1 (elapsed E 1 i),
                timed dt2 (elapsed E 2 i), timed dt3 (elapsed E 3 i))"
    and "\<exists>cb' cp'. \<forall>cb cp rest.
           flows cb cp (fst (batch_pipeline E H tr m (v, dt0, dt1, dt2, dt3) (i, b)) @ rest) =
           flows cb' cp' rest"
proof -
  from batch_pipeline_returns [OF assms] obtain b' x p cs p' pl where
    t: "fst (batch_pipeline E H tr m (v, dt0, dt1, dt2, dt3) (i, b)) =
             [Preprocess i b b', Infer i x p] @ map (Criterion i p b') cs @
             [Postprocess i p p', UpdateMetrics i p' b'] @ pl"
    and img: "map_of b' ''img'' = Some x"
    and cs: "length cs = (if training v then 1 else 0)"
    and pl0: "list_all (\<lambda>e. phase_of e = LoopPhase \<and> stage_of e = None \<and> criterion_result e = None) pl"
    and same: "same_run v v'"
    and l: "loss v' = map_option (\<lambda>l. foldl (tensor_add E) l cs) (loss v)"
    and dt: "dt' = (timed dt0 (elapsed E 0 i), timed dt1 (elapsed E 1 i),
                  timed dt2 (elapsed E 2 i), timed dt3 (elapsed E 3 i))"
    by blast
  have pl: "list_all (\<lambda>e. stage_of e = None) pl"
    using pl0 by (auto intro: list_all_weaken)
  have cs1: "length cs \<le> 1"
    using cs by (simp split: if_splits)
  show "stages (fst (batch_pipeline E H tr m (v, dt0, dt1, dt2, dt3) (i, b))) =
           stages_of_batch (training v) i"
    unfolding t by (rule batch_trace_stages [OF cs pl])
  show "preprocessed (fst (batch_pipeline E H tr m (v, dt0, dt1, dt2, dt3) (i, b))) = [b]"
    unfolding t by (rule batch_trace_observed(1) [OF pl])
  show "length (filter is_update (fst (batch_pipeline E H tr m (v, dt0, dt1, dt2, dt3) (i, b)))) = 1"
    unfolding t by (simp only: batch_trace_observed(2) [OF pl]) simp
  show "loss v' = map_option (\<lambda>l. foldl (tensor_add E) l
            (criterion_losses (fst (batch_pipeline E H tr m (v, dt0, dt1, dt2, dt3) (i, b))))) (loss v)"
    unfolding t by (simp only: batch_trace_observed(3) [OF pl] l)
  show "same_run v v'" by (rule same)
  show "dt' = (timed dt0 (elapsed E 0 i), timed dt1 (elapsed E 1 i),
                timed dt2 (elapsed E 2 i), timed dt3 (elapsed E 3 i))" by (rule dt)
  show "\<exists>cb' cp'. \<forall>cb cp rest.
           flows cb cp (fst (batch_pipeline E H tr m (v, dt0, dt1, dt2, dt3) (i, b)) @ rest) =
           flows cb' cp' rest"
    unfolding t using batch_trace_flows [OF img cs1 pl] by blast
qed

lemma expected_stages_Suc:
  "expected_stages e k (Suc n) = stages_of_batch e k @ expected_stages e (Suc k) n"
  by (simp add: expected_stages_def upt_conv_Cons del: upt_Suc)

lemma sum_from_Suc:
  fixes f :: "nat \<Rightarrow> rat"
  shows "(\<Sum>i = k..<k + Suc n. f i) = f k + (\<Sum>i = Suc k..<Suc k + n. f i)"
  by (simp add: sum.atLeast_Suc_lessThan)

lemma batch_loop_observed:
  fixes H :: "('v, 's, 'j, 'h) hooks"
  assumes "snd (batch_loop E H tr m (v, dt0, dt1, dt2, dt3) (enumerate k bs)) =
             Inr (v', dt0', dt1', dt2', dt3')"
  shows "stages (fst (batch_loop E H tr m (v, dt0, dt1, dt2, dt3) (enumerate k bs))) =
           expected_stages (training v) k (length bs) \<and>
         preprocessed (fst (batch_loop E H tr m (v, dt0, dt1, dt2, dt3) (enumerate k bs))) = bs \<and>
         length (filter is_update (fst (batch_loop E H tr m (v, dt0, dt1, dt2, dt3) (enumerate k bs)))) =
           length bs \<and>
         loss v' = map_option (\<lambda>l. foldl (tensor_add E) l
            (criterion_losses (fst (batch_loop E H tr m (v, dt0, dt1, dt2, dt3) (enumerate k bs))))) (loss v) \<and>
         same_run v v' \<and>
         prof_t dt0' = prof_t dt0 + (\<Sum>i = k..<k + length bs. elapsed E 0 i) \<and>
         prof_t dt1' = prof_t dt1 + (\<Sum>i = k..<k + length bs. elapsed E 1 i) \<and>
         prof_t dt2' = prof_t dt2 + (\<Sum>i = k..<k + length bs. elapsed E 2 i) \<and>
         prof_t dt3' = prof_t dt3 + (\<Sum>i = k..<k + length bs. elapsed E 3 i) \<and>
         (\<forall>cb cp rest. (\<forall>cb' cp'. flows cb' cp' rest) \<longrightarrow>
            flows cb cp (fst (batch_loop E H tr m (v, dt0, dt1, dt2, dt3) (enumerate k bs)) @ rest))"
  using assms
proof (induction bs arbitrary: v dt0 dt1 dt2 dt3 k)
  case Nil
  then show ?case
    by (simp add: ret_def stages_def preprocessed_def criterion_losses_def map_filter_Nil
        expected_stages_def option.map_ident)
next
  case (Cons b bs)
  let ?st = "(v, dt0, dt1, dt2, dt3)"
  let ?B = "batch_pipeline E H tr m ?st (k, b)"
  from Cons.prems obtain st1 where b1: "snd ?B = Inr st1"
    and r1: "snd (batch_loop E H tr m st1 (enumerate (Suc k) bs)) = Inr (v', dt0', dt1', dt2', dt3')"
    and t: "fst (batch_loop E H tr m ?st (enumerate k (b # bs))) =
              fst ?B @ fst (batch_loop E H tr m st1 (enumerate (Suc k) bs))"
    by (auto elim!: bind_r_returns)
  obtain v1 e0 e1 e2 e3 where st1: "st1 = (v1, e0, e1, e2, e3)"
    by (cases st1) auto
  note o = batch_pipeline_observed [OF b1 [unfolded st1]]
  note ih = Cons.IH [OF r1 [unfolded st1]]
  let ?L = "fst (batch_loop E H tr m (v1, e0, e1, e2, e3) (enumerate (Suc k) bs))"
  have tv: "training v1 = training v"
    using o(5) by (simp add: same_run_def)
  have t': "fst (batch_loop E H tr m ?st (enumerate k (b # bs))) = fst ?B @ ?L"
    using t st1 by simp
  have "stages (fst ?B @ ?L) = expected_stages (training v) k (length (b # bs))"
    using o(1) ih tv by (simp add: stages_def map_filter_append expected_stages_Suc)
  moreover have "preprocessed (fst ?B @ ?L) = b # bs"
    using o(2) ih by (simp add: preprocessed_def map_filter_append)
  moreover have "length (filter is_update (fst ?B @ ?L)) = length (b # bs)"
    using o(3) ih by simp
  moreover have "loss v' = map_option (\<lambda>l. foldl (tensor_add E) l (criterion_losses (fst ?B @ ?L))) (loss v)"
    using o(4) ih by (simp add: criterion_losses_def map_filter_append option.map_comp comp_def)
  moreover have "same_run v v'"
    using o(5) ih by (blast intro: same_run_trans)
  moreover have "prof_t dt0' = prof_t dt0 + (\<Sum>i = k..<k + length (b # bs). elapsed E 0 i)"
      "prof_t dt1' = prof_t dt1 + (\<Sum>i = k..<k + length (b # bs). elapsed E 1 i)"
      "prof_t dt2' = prof_t dt2 + (\<Sum>i = k..<k + length (b # bs). elapsed E 2 i)"
      "prof_t dt3' = prof_t dt3 + (\<Sum>i = k..<k + length (b # bs). elapsed E 3 i)"
    using o(6) ih by (simp_all add: timed_def sum.atLeast_Suc_lessThan)
  moreover have "\<forall>cb cp rest. (\<forall>cb' cp'. flows cb' cp' rest) \<longrightarrow> flows cb cp ((fst ?B @ ?L) @ rest)"
  proof (intro allI impI)
    fix cb cp and rest :: "('v, 's, 'j) event list"
    assume a: "\<forall>cb' cp'. flows cb' cp' rest"
    from o(7) obtain cb1 cp1 where
      f: "\<And>cb cp rest. flows cb cp (fst ?B @ rest) = flows cb1 cp1 rest"
      by blast
    have "flows cb cp (fst ?B @ (?L @ rest)) = flows cb1 cp1 (?L @ rest)"
      by (rule f)
    also have "\<dots>"
      using ih a by blast
    finally show "flows cb cp ((fst ?B @ ?L) @ rest)"
      by simp
  qed
  ultimately show ?case
    unfolding t' by blast
qed

subsection \<open>A call that returns\<close>

text \<open>When the call returns, each phase has returned, and the trace is theirs in order.\<close>

lemma validate_returns:
  fixes H :: "('v, 's, 'j, 'h) hooks"
  assumes "snd (validate E H tr v m0) = Inr (v', r)"
  obtains dl v3 v4 dt0 dt1 dt2 dt3 v5 stats where
    "dataloader v = Some dl"
    "same_run v v3"
    "loss v3 = loss v"
    "snd (batch_loop E H tr (m0\<lparr>eval_mode := True\<rparr>) (v3, Profile, Profile, Profile, Profile)
           (enumerate 0 (batches dl))) = Inr (v4, dt0, dt1, dt2, dt3)"
    "snd (aggregate H v4 (dt0, dt1, dt2, dt3)) = Inr (v5, stats)"
    "snd (report E H tr v5 (m0\<lparr>eval_mode := True\<rparr>) stats) = Inr (v', r)"
    "fst (validate E H tr v m0) = [GetDesc, InitMetrics] @
       fst (batch_loop E H tr (m0\<lparr>eval_mode := True\<rparr>) (v3, Profile, Profile, Profile, Profile)
           (enumerate 0 (batches dl))) @
       fst (aggregate H v4 (dt0, dt1, dt2, dt3)) @
       fst (report E H tr v5 (m0\<lparr>eval_mode := True\<rparr>) stats)"
proof -
  let ?m = "m0\<lparr>eval_mode := True\<rparr>"
  let ?v0 = "v\<lparr>model := Some ?m\<rparr>"
  from assms obtain dl where dl: "dataloader v = Some dl"
    by (auto simp: validate_def Let_def split: option.splits)
  from assms dl obtain v1 d where gd: "call_hook ?v0 (\<lambda>h. get_desc H h) = Inr (v1, d)"
    by (auto simp: validate_def Let_def bind_r_lift split: sum.splits)
  from assms dl gd obtain v2 u where im: "call_hook v1 (\<lambda>h. init_metrics H h ?m) = Inr (v2, u)"
    by (auto simp: validate_def Let_def bind_r_lift split: sum.splits)
  let ?v3 = "v2\<lparr>jdict := Some []\<rparr>"
  let ?L = "batch_loop E H tr ?m (?v3, Profile, Profile, Profile, Profile) (enumerate 0 (batches dl))"
  from assms dl gd im obtain st where l: "snd ?L = Inr st"
    by (auto simp: validate_def Let_def bind_r_lift snd_bind_r split: sum.splits)
  obtain v4 dt0 dt1 dt2 dt3 where st: "st = (v4, dt0, dt1, dt2, dt3)"
    by (cases st) auto
  from assms dl gd im l st obtain ag where a: "snd (aggregate H v4 (dt0, dt1, dt2, dt3)) = Inr ag"
    by (auto simp: validate_def Let_def bind_r_lift snd_bind_r split: sum.splits)
  obtain v5 stats where ag: "ag = (v5, stats)"
    by (cases ag) auto
  from assms dl gd im l st a ag have rp: "snd (report E H tr v5 ?m stats) = Inr (v', r)"
    by (auto simp: validate_def Let_def bind_r_lift snd_bind_r split: sum.splits)
  from dl gd im l st a ag
  have t: "fst (validate E H tr v m0) = [GetDesc, InitMetrics] @ fst ?L @
       fst (aggregate H v4 (dt0, dt1, dt2, dt3)) @ fst (report E H tr v5 ?m stats)"
    by (simp add: validate_def Let_def bind_r_lift fst_bind_r)
  have s: "same_run v ?v3" "loss ?v3 = loss v"
    using call_hook_same [OF gd] call_hook_same [OF im] by (simp_all add: same_run_def)
  show ?thesis
    using that [OF dl s l [unfolded st] a [unfolded ag] rp t] .
qed

lemma aggregate_returns:
  assumes "snd (aggregate H v dt) = Inr (v', stats)"
  obtains dl sp where
    "fst (aggregate H v dt) = [GetStats stats, CheckStats stats, PrintResults]"
    "same_run v v'" "loss v' = loss v"
    "dataloader v = Some dl" "compute_speed dt (dataset_len dl) = Inr sp" "speed v' = Some sp"
proof -
  from assms obtain v1 where gs: "call_hook v (\<lambda>h. get_stats H h) = Inr (v1, stats)"
    by (auto simp: aggregate_def bind_r_lift snd_bind_r split: sum.splits prod.splits)
  from assms gs obtain v2 u where cs: "call_hook v1 (\<lambda>h. check_stats H h stats) = Inr (v2, u)"
    by (auto simp: aggregate_def bind_r_lift snd_bind_r split: sum.splits prod.splits)
  from assms gs cs obtain v3 u' where pr: "call_hook v2 (\<lambda>h. print_results H h) = Inr (v3, u')"
    by (auto simp: aggregate_def bind_r_lift snd_bind_r split: sum.splits prod.splits)
  from assms gs cs pr obtain dl sp where dl: "dataloader v3 = Some dl"
    and sp: "compute_speed dt (dataset_len dl) = Inr sp" and v': "v' = v3\<lparr>speed := Some sp\<rparr>"
    by (auto simp: aggregate_def bind_r_lift snd_bind_r split: sum.splits prod.splits option.splits)
  from gs cs pr dl sp
  have t: "fst (aggregate H v dt) = [GetStats stats, CheckStats stats, PrintResults]"
    by (simp add: aggregate_def bind_r_lift fst_bind_r)
  have s: "same_run v v3" "loss v3 = loss v"
    using call_hook_same [OF gs] call_hook_same [OF cs] call_hook_same [OF pr]
    by (simp_all add: same_run_def)
  show ?thesis
    using that [OF t _ _ _ sp] s dl v' by (simp add: same_run_def)
qed


lemma resolve_dataloader_same:
  assumes "snd (resolve_dataloader H v d) = Inr v'"
  shows "args v' = args v \<and> training v' = training v \<and> save_dir v' = save_dir v \<and> loss v' = loss v"
  using assms
  by (auto simp: resolve_dataloader_def bind_r_lift snd_bind_r same_run_def
      split: if_splits sum.splits prod.splits dest!: call_hook_same)

lemma resolve_returns:
  assumes "snd (resolve E H v tr mo) = Inr (v1, m)"
  shows "training v1 = (tr \<noteq> None) \<and> save_dir v1 = save_dir v \<and>
         save_json (args v1) = save_json (args v) \<and>
         (case tr of Some t \<Rightarrow> loss v1 = Some (zeros_like E (loss_items t)) | None \<Rightarrow> True)"
proof (cases tr)
  case (Some t)
  with assms show ?thesis
    by (auto simp: resolve_def resolve_embedded_def Let_def)
next
  case None
  with assms show ?thesis
    apply (simp add: resolve_def resolve_standalone_def bind_r_lift Let_def force_batch_size_result
        split: sum.splits option.splits)
    apply (auto simp: snd_bind_r split: sum.splits dest!: resolve_dataloader_same)
    done
qed

lemma report_returns:
  assumes "snd (report E H tr v m stats) = Inr (v', r)"
  shows "same_run v v' \<and> speed v' = speed v \<and> loss v' = loss v"
  using assms
  by (auto simp: report_def report_embedded_def report_standalone_def Let_def bind_r_lift
      snd_bind_r same_run_def
      split: if_splits option.splits sum.splits prod.splits dest!: call_hook_same)

lemma call_returns:
  fixes H :: "('v, 's, 'j, 'h) hooks"
  assumes "snd (call E H v tr mo) = Inr (v', r)"
  obtains v1 m where "snd (resolve E H v tr mo) = Inr (v1, m)"
    and "snd (validate E H tr v1 m) = Inr (v', r)"
    and "fst (call E H v tr mo) = fst (resolve E H v tr mo) @ fst (validate E H tr v1 m)"
  using assms unfolding call_def
  by (auto elim!: bind_r_returns)

lemma stage_none_of_phase: "phase_of e \<noteq> LoopPhase \<Longrightarrow> stage_of e = None"
  by (cases e) simp_all

lemma resolve_no_stage: "list_all (\<lambda>e. stage_of e = None) (fst (resolve E H v tr mo))"
  by (rule list_all_weaken [OF resolve_phase]) (simp add: stage_none_of_phase)

lemma aggregate_no_stage: "list_all (\<lambda>e. stage_of e = None) (fst (aggregate H v dt))"
  by (rule list_all_weaken [OF aggregate_phase]) (simp add: stage_none_of_phase)

lemma report_no_stage: "list_all (\<lambda>e. stage_of e = None) (fst (report E H tr v m s))"
  by (rule list_all_weaken [OF report_phase]) (simp add: stage_none_of_phase)

lemma no_stage_observed:
  assumes "list_all (\<lambda>e. stage_of e = None) es"
  shows "stages es = []" and "preprocessed es = []" and "filter is_update es = []"
    and "criterion_losses es = []"
proof -
  have a: "list_all (\<lambda>e. preprocess_input e = None) es" "list_all (\<lambda>e. \<not> is_update e) es"
       "list_all (\<lambda>e. criterion_result e = None) es"
    using assms by (auto intro: list_all_weaken dest: stage_none_others)
  show "stages es = []"
    using assms by (simp add: stages_def map_filter_none)
  show "preprocessed es = []"
    using a by (simp add: preprocessed_def map_filter_none)
  show "filter is_update es = []"
    using a(2) by (induction es) auto
  show "criterion_losses es = []"
    using a by (simp add: criterion_losses_def map_filter_none)
qed

lemma observers_append:
  "stages (xs @ ys) = stages xs @ stages ys"
  "preprocessed (xs @ ys) = preprocessed xs @ preprocessed ys"
  "criterion_losses (xs @ ys) = criterion_losses xs @ criterion_losses ys"
  "stats_returned (xs @ ys) = stats_returned xs @ stats_returned ys"
  "json_dumps (xs @ ys) = json_dumps xs @ json_dumps ys"
  by (simp_all add: stages_def preprocessed_def criterion_losses_def stats_returned_def
      json_dumps_def map_filter_append)

text \<open>The whole of a call that returns, phase by phase.\<close>

lemma call_phases:
  fixes H :: "('v, 's, 'j, 'h) hooks"
  assumes "snd (call E H v tr mo) = Inr (v', r)"
  obtains R L A P v1 m v3 v4 dt0 dt1 dt2 dt3 v5 stats dl where
    "fst (call E H v tr mo) = R @ [GetDesc, InitMetrics] @ L @ A @ P"
    "R = fst (resolve E H v tr mo)" "snd (resolve E H v tr mo) = Inr (v1, m)"
    "dataloader v1 = Some dl" "same_run v1 v3" "loss v3 = loss v1"
    "L = fst (batch_loop E H tr (m\<lparr>eval_mode := True\<rparr>) (v3, Profile, Profile, Profile, Profile)
           (enumerate 0 (batches dl)))"
    "snd (batch_loop E H tr (m\<lparr>eval_mode := True\<rparr>) (v3, Profile, Profile, Profile, Profile)
           (enumerate 0 (batches dl))) = Inr (v4, dt0, dt1, dt2, dt3)"
    "A = fst (aggregate H v4 (dt0, dt1, dt2, dt3))"
    "snd (aggregate H v4 (dt0, dt1, dt2, dt3)) = Inr (v5, stats)"
    "P = fst (report E H tr v5 (m\<lparr>eval_mode := True\<rparr>) stats)"
    "snd (report E H tr v5 (m\<lparr>eval_mode := True\<rparr>) stats) = Inr (v', r)"
proof -
  from assms obtain v1 m where r: "snd (resolve E H v tr mo) = Inr (v1, m)"
    and va: "snd (validate E H tr v1 m) = Inr (v', r)"
    and t: "fst (call E H v tr mo) = fst (resolve E H v tr mo) @ fst (validate E H tr v1 m)"
    by (rule call_returns)
  from va obtain dl v3 v4 dt0 dt1 dt2 dt3 v5 stats where
    d: "dataloader v1 = Some dl" "same_run v1 v3" "loss v3 = loss v1"
    and l: "snd (batch_loop E H tr (m\<lparr>eval_mode := True\<rparr>) (v3, Profile, Profile, Profile, Profile)
           (enumerate 0 (batches dl))) = Inr (v4, dt0, dt1, dt2, dt3)"
    and a: "snd (aggregate H v4 (dt0, dt1, dt2, dt3)) = Inr (v5, stats)"
    and p: "snd (report E H tr v5 (m\<lparr>eval_mode := True\<rparr>) stats) = Inr (v', r)"
    and tv: "fst (validate E H tr v1 m) = [GetDesc, InitMetrics] @
       fst (batch_loop E H tr (m\<lparr>eval_mode := True\<rparr>) (v3, Profile, Profile, Profile, Profile)
           (enumerate 0 (batches dl))) @
       fst (aggregate H v4 (dt0, dt1, dt2, dt3)) @
       fst (report E H tr v5 (m\<lparr>eval_mode := True\<rparr>) stats)"
    by (rule validate_returns)
  show ?thesis
    by (rule that [OF _ refl r d refl l refl a refl p]) (simp add: t tv)
qed

text \<open>The stages of a call that returns.\<close>

lemma pipeline_of_returning_call:
  fixes H :: "('v, 's, 'j, 'h) hooks"
  assumes "snd (call E H v tr mo) = Inr (v', r)"
  shows "\<exists>dl. dataloader v' = Some dl \<and>
           stages (fst (call E H v tr mo)) = expected_stages (tr \<noteq> None) 0 (length (batches dl)) \<and>
           preprocessed (fst (call E H v tr mo)) = batches dl \<and>
           flows None None (fst (call E H v tr mo)) \<and>
           length (filter is_update (fst (call E H v tr mo))) = length (batches dl)"
proof -
  from assms obtain R L A P v1 m v3 v4 dt0 dt1 dt2 dt3 v5 stats dl where
    t: "fst (call E H v tr mo) = R @ [GetDesc, InitMetrics] @ L @ A @ P"
    and R: "R = fst (resolve E H v tr mo)" and r: "snd (resolve E H v tr mo) = Inr (v1, m)"
    and d: "dataloader v1 = Some dl" "same_run v1 v3" "loss v3 = loss v1"
    and L: "L = fst (batch_loop E H tr (m\<lparr>eval_mode := True\<rparr>) (v3, Profile, Profile, Profile, Profile)
           (enumerate 0 (batches dl)))"
    and l: "snd (batch_loop E H tr (m\<lparr>eval_mode := True\<rparr>) (v3, Profile, Profile, Profile, Profile)
           (enumerate 0 (batches dl))) = Inr (v4, dt0, dt1, dt2, dt3)"
    and A: "A = fst (aggregate H v4 (dt0, dt1, dt2, dt3))"
    and a: "snd (aggregate H v4 (dt0, dt1, dt2, dt3)) = Inr (v5, stats)"
    and P: "P = fst (report E H tr v5 (m\<lparr>eval_mode := True\<rparr>) stats)"
    and p: "snd (report E H tr v5 (m\<lparr>eval_mode := True\<rparr>) stats) = Inr (v', r)"
    by (rule call_phases)
  note o = batch_loop_observed [OF l, folded L]
  define S :: "('v, 's, 'j) event list" where "S = [GetDesc, InitMetrics]"
  have t': "fst (call E H v tr mo) = R @ S @ L @ A @ P"
    using t by (simp add: S_def)
  have s45: "same_run v4 v5"
    using a by (rule aggregate_returns)
  have same: "same_run v1 v'"
    using d(2) o s45 report_returns [OF p] by (blast intro: same_run_trans)
  have tv: "training v3 = (tr \<noteq> None)"
    using resolve_returns [OF r] d(2) by (simp add: same_run_def)
  have nR: "list_all (\<lambda>e. stage_of e = None) R"
    unfolding R by (rule resolve_no_stage)
  have nS: "list_all (\<lambda>e. stage_of e = None) S"
    by (simp add: S_def)
  have nA: "list_all (\<lambda>e. stage_of e = None) A"
    unfolding A by (rule aggregate_no_stage)
  have nP: "list_all (\<lambda>e. stage_of e = None) P"
    unfolding P by (rule report_no_stage)
  have nAP: "list_all (\<lambda>e. stage_of e = None) (A @ P)"
    using nA nP by simp
  have rest: "\<forall>cb cp. flows cb cp (A @ P)"
    using flows_skip [OF nAP, of _ _ "[]"] by simp
  have "flows None None (L @ A @ P)"
    using o rest by blast
  then have "flows None None (R @ S @ L @ A @ P)"
    by (simp only: flows_skip [OF nR] flows_skip [OF nS])
  moreover have "stages (R @ S @ L @ A @ P) = expected_stages (tr \<noteq> None) 0 (length (batches dl))"
    using o tv by (simp add: observers_append no_stage_observed [OF nR] no_stage_observed [OF nS]
        no_stage_observed [OF nA] no_stage_observed [OF nP])
  moreover have "preprocessed (R @ S @ L @ A @ P) = batches dl"
    using o by (simp add: observers_append no_stage_observed [OF nR] no_stage_observed [OF nS]
        no_stage_observed [OF nA] no_stage_observed [OF nP])
  moreover have "length (filter is_update (R @ S @ L @ A @ P)) = length (batches dl)"
    using o by (simp add: no_stage_observed [OF nR] no_stage_observed [OF nS]
        no_stage_observed [OF nA] no_stage_observed [OF nP])
  moreover have "dataloader v' = Some dl"
    using same d(1) by (simp add: same_run_def)
  ultimately show ?thesis
    unfolding t' by simp
qed


subsection \<open>The value returned\<close>

lemma stats_none_of_phase: "phase_of e \<noteq> AggregatePhase \<Longrightarrow> stats_result e = None"
  by (cases e) simp_all

lemma criterion_none_of_phase: "phase_of e \<noteq> LoopPhase \<Longrightarrow> criterion_result e = None"
  by (cases e) simp_all

lemma eval_json_of_phase: "phase_of e \<noteq> ReportPhase \<Longrightarrow> \<not> is_eval_json e \<and> json_dump e = None"
  by (cases e) simp_all

lemma phase_stats_returned:
  "list_all (\<lambda>e. phase_of e = ph) es \<Longrightarrow> ph \<noteq> AggregatePhase \<Longrightarrow> stats_returned es = []"
  unfolding stats_returned_def
  by (rule map_filter_none) (auto intro: list_all_weaken simp: stats_none_of_phase)

lemma phase_criterion_losses:
  "list_all (\<lambda>e. phase_of e = ph) es \<Longrightarrow> ph \<noteq> LoopPhase \<Longrightarrow> criterion_losses es = []"
  unfolding criterion_losses_def
  by (rule map_filter_none) (auto intro: list_all_weaken simp: criterion_none_of_phase)

lemma phase_json:
  assumes "list_all (\<lambda>e. phase_of e = ph) es" and "ph \<noteq> ReportPhase"
  shows "json_dumps es = []" and "filter is_eval_json es = []"
proof -
  have a: "list_all (\<lambda>e. \<not> is_eval_json e \<and> json_dump e = None) es"
    using assms by (auto intro: list_all_weaken simp: eval_json_of_phase)
  show "json_dumps es = []"
    unfolding json_dumps_def by (rule map_filter_none) (rule list_all_weaken [OF a], simp)
  show "filter is_eval_json es = []"
    using a by (induction es) auto
qed

lemma setup_phase: "list_all (\<lambda>e. phase_of e = SetupPhase) [GetDesc, InitMetrics]"
  by simp

lemma report_embedded_result:
  assumes "snd (report E H (Some t) v m stats) = Inr (v', r)" and "training v"
  shows "\<exists>l dl. loss v = Some l \<and> dataloader v = Some dl \<and>
           r = Some (stats ++ label_loss_items t
                  (tensor_div E (tensor_cpu E l) (length (batches dl))) ''val'')"
  using assms
  by (auto simp: report_def report_embedded_def Let_def split: option.splits)

lemma report_standalone_result:
  assumes "snd (report E H tr v m stats) = Inr (v', r)" and "\<not> training v"
  shows "\<not> list_ex is_eval_json (fst (report E H tr v m stats)) \<longrightarrow> r = Some stats"
  using assms
  by (auto simp: report_def report_standalone_def bind_r_lift fst_bind_r snd_bind_r
      split: option.splits if_splits sum.splits prod.splits)

text \<open>
  C4: a call that returns has called \<open>get_stats\<close> once.  In embedded mode it returns the
  stats map of \<open>get_stats\<close> merged with the trainer's labelled loss items under the prefix
  \<open>val\<close>, computed from the accumulated loss (the zero tensor plus the loss items the
  criterion returned, in order) divided by the number of batches.  In standalone mode the
  criterion is never called and, unless \<open>eval_json\<close> replaces it, the value returned is the
  stats map of \<open>get_stats\<close> itself.
\<close>

theorem returned_stats:
  fixes H :: "('v, 's, 'j, 'h) hooks"
  assumes "snd (call E H v tr mo) = Inr (v', r)"
  shows "\<exists>stats. stats_returned (fst (call E H v tr mo)) = [stats] \<and>
           (case tr of
              Some t \<Rightarrow>
                (\<exists>dl. dataloader v' = Some dl \<and>
                   r = Some (stats ++ label_loss_items t
                         (tensor_div E
                            (tensor_cpu E (foldl (tensor_add E) (zeros_like E (loss_items t))
                               (criterion_losses (fst (call E H v tr mo)))))
                            (length (batches dl))) ''val''))
            | None \<Rightarrow>
                criterion_losses (fst (call E H v tr mo)) = [] \<and>
                (\<not> list_ex is_eval_json (fst (call E H v tr mo)) \<longrightarrow> r = Some stats))"
proof -
  from assms obtain R L A P v1 m v3 v4 dt0 dt1 dt2 dt3 v5 stats dl where
    t: "fst (call E H v tr mo) = R @ [GetDesc, InitMetrics] @ L @ A @ P"
    and R: "R = fst (resolve E H v tr mo)" and r: "snd (resolve E H v tr mo) = Inr (v1, m)"
    and d: "dataloader v1 = Some dl" "same_run v1 v3" "loss v3 = loss v1"
    and L: "L = fst (batch_loop E H tr (m\<lparr>eval_mode := True\<rparr>) (v3, Profile, Profile, Profile, Profile)
           (enumerate 0 (batches dl)))"
    and l: "snd (batch_loop E H tr (m\<lparr>eval_mode := True\<rparr>) (v3, Profile, Profile, Profile, Profile)
           (enumerate 0 (batches dl))) = Inr (v4, dt0, dt1, dt2, dt3)"
    and A: "A = fst (aggregate H v4 (dt0, dt1, dt2, dt3))"
    and a: "snd (aggregate H v4 (dt0, dt1, dt2, dt3)) = Inr (v5, stats)"
    and P: "P = fst (report E H tr v5 (m\<lparr>eval_mode := True\<rparr>) stats)"
    and p: "snd (report E H tr v5 (m\<lparr>eval_mode := True\<rparr>) stats) = Inr (v', r)"
    by (rule call_phases)
  note o = batch_loop_observed [OF l, folded L]
  define S :: "('v, 's, 'j) event list" where "S = [GetDesc, InitMetrics]"
  have t': "fst (call E H v tr mo) = R @ S @ L @ A @ P"
    using t by (simp add: S_def)
  have pR: "list_all (\<lambda>e. phase_of e = ResolvePhase) R"
    unfolding R by (rule resolve_phase)
  have pS: "list_all (\<lambda>e. phase_of e = SetupPhase) S"
    by (simp add: S_def)
  have pL: "list_all (\<lambda>e. phase_of e = LoopPhase) L"
    unfolding L by (rule batch_loop_phase)
  have pA: "list_all (\<lambda>e. phase_of e = AggregatePhase) A"
    unfolding A by (rule aggregate_phase)
  have pP: "list_all (\<lambda>e. phase_of e = ReportPhase) P"
    unfolding P by (rule report_phase)
  from a obtain sp where A': "A = [GetStats stats, CheckStats stats, PrintResults]"
    and s45: "same_run v4 v5" "loss v5 = loss v4"
    unfolding A by (rule aggregate_returns)
  have same: "same_run v1 v5"
    using d(2) o s45 by (blast intro: same_run_trans)
  have same': "same_run v5 v'"
    using report_returns [OF p] by simp
  have st: "stats_returned (R @ S @ L @ A @ P) = [stats]"
    by (simp add: observers_append phase_stats_returned [OF pR] phase_stats_returned [OF pS]
        phase_stats_returned [OF pL] phase_stats_returned [OF pP])
       (simp add: A' stats_returned_def map_filter_Cons map_filter_Nil)
  have cl: "criterion_losses (R @ S @ L @ A @ P) = criterion_losses L"
    by (simp add: observers_append phase_criterion_losses [OF pR] phase_criterion_losses [OF pS]
        phase_criterion_losses [OF pA] phase_criterion_losses [OF pP])
  have ej: "list_ex is_eval_json (R @ S @ L @ A @ P) = list_ex is_eval_json P"
    using phase_json(2) [OF pR] phase_json(2) [OF pS] phase_json(2) [OF pL] phase_json(2) [OF pA]
    by (auto simp: list_ex_iff filter_empty_conv)
  have tr5: "training v5 = (tr \<noteq> None)"
    using resolve_returns [OF r] same by (simp add: same_run_def)
  show ?thesis
  proof (cases tr)
    case None
    then have nt: "\<not> training v3" "\<not> training v5"
      using tr5 d(2) same by (simp_all add: same_run_def)
    have "stages L = expected_stages False 0 (length (batches dl))"
      using o nt by simp
    have "length (criterion_losses L) = 0"
    proof -
      have "List.map_filter (\<lambda>s. if snd s = LossStage then Some () else None) (stages L) = []"
        using \<open>stages L = expected_stages False 0 (length (batches dl))\<close>
        by (simp add: expected_stages_def stages_of_batch_def map_filter_def)
      moreover have "length (criterion_losses es) =
          length (List.map_filter (\<lambda>s. if snd s = LossStage then Some () else None) (stages es))"
        for es :: "('v, 's, 'j) event list"
      proof (induction es)
        case Nil
        show ?case by (simp add: criterion_losses_def stages_def map_filter_Nil)
      next
        case (Cons e es)
        then show ?case
          by (cases e) (simp_all add: criterion_losses_def stages_def map_filter_Cons)
      qed
      ultimately show ?thesis by simp
    qed
    then have "criterion_losses L = []" by simp
    moreover have "\<not> list_ex is_eval_json P \<longrightarrow> r = Some stats"
      using report_standalone_result [OF p nt(2)] by (simp add: P)
    ultimately show ?thesis
      using None st cl ej unfolding t' by auto
  next
    case (Some tn)
    have l1: "loss v1 = Some (zeros_like E (loss_items tn))"
      using resolve_returns [OF r] Some by simp
    have l5: "loss v5 = Some (foldl (tensor_add E) (zeros_like E (loss_items tn)) (criterion_losses L))"
      using o l1 d(3) s45(2) by simp
    from report_embedded_result [OF p [unfolded Some]] tr5 Some
    obtain l' dl' where "loss v5 = Some l'" "dataloader v5 = Some dl'"
      "r = Some (stats ++ label_loss_items tn
                  (tensor_div E (tensor_cpu E l') (length (batches dl'))) ''val'')"
      by auto
    moreover have "dataloader v5 = Some dl" "dataloader v' = Some dl"
      using same same' d(1) by (simp_all add: same_run_def)
    ultimately show ?thesis
      using Some st cl l5 unfolding t' by auto
  qed
qed

theorem returned_stats_witness:
  "(\<exists>stats. stats_returned (fst (call ex_env ex_hooks ex_validator (Some ex_trainer) None)) = [stats] \<and>
      map_sum id snd (snd (call ex_env ex_hooks ex_validator (Some ex_trainer) None)) =
        Inr (Some (stats ++ [''val/box_loss'' \<mapsto> 4]))) \<and>
   (\<exists>stats. stats_returned (fst (call ex_env ex_hooks ex_validator None (Some ''yolov8n.pt''))) = [stats] \<and>
      map_sum id snd (snd (call ex_env ex_hooks ex_validator None (Some ''yolov8n.pt''))) =
        Inr (Some stats))"
proof
  let ?C = "call ex_env ex_hooks ex_validator (Some ex_trainer) None"
  have dl: "map_sum id (\<lambda>(v, r). dataloader v) (snd ?C) = Inr (Some ex_loader)"
    by (simp add: call_defs ex_defs run_defs)
  then obtain v' r where r: "snd ?C = Inr (v', r)"
    by (cases "snd ?C") auto
  have cl: "criterion_losses (fst ?C) = [2, 6]"
    by (simp add: call_defs ex_defs run_defs criterion_losses_def map_filter_Cons map_filter_Nil)
  from returned_stats [OF r] dl r cl
  show "\<exists>stats. stats_returned (fst ?C) = [stats] \<and>
      map_sum id snd (snd ?C) = Inr (Some (stats ++ [''val/box_loss'' \<mapsto> 4]))"
    by (auto simp: ex_loader_def ex_env_def ex_trainer_def)
next
  let ?C = "call ex_env ex_hooks ex_validator None (Some ''yolov8n.pt'')"
  have ok: "\<not> isl (snd ?C)"
    by (simp add: call_defs ex_defs run_defs)
  then obtain v' r where r: "snd ?C = Inr (v', r)"
    by (cases "snd ?C") auto
  have ne: "\<not> list_ex is_eval_json (fst ?C)"
    by (simp add: call_defs ex_defs run_defs)
  from returned_stats [OF r] r ne
  show "\<exists>stats. stats_returned (fst ?C) = [stats] \<and> map_sum id snd (snd ?C) = Inr (Some stats)"
    by auto
qed

subsection \<open>The speed profile\<close>

lemma speed_timer:
  "prof_t dt = prof_t Profile + (\<Sum>i = 0..<0 + n. elapsed E k i) \<Longrightarrow> prof_t dt = stage_total E k n"
  by (simp add: Profile_def stage_total_def lessThan_atLeast0)

text \<open>
  C7: when the call returns, \<open>self.speed\<close> is the tuple, in the order preprocess,
  inference, loss, postprocess, of each timer's total over the batches, in seconds, divided
  by the number of samples of the dataset and multiplied by 1000; the number of samples is
  positive; the entries are not negative when no measured time is; and totals of 10, 40, 0
  and 5 milliseconds over 100 samples give 0.1, 0.4, 0 and 0.05.  Times are rational
  numbers here, where the code has floats.
\<close>

theorem speed_profile_per_sample:
  fixes H :: "('v, 's, 'j, 'h) hooks"
  assumes "snd (call E H v tr mo) = Inr (v', r)"
  shows "(\<exists>dl. dataloader v' = Some dl \<and> 0 < dataset_len dl \<and>
           speed v' = Some
             (stage_total E 0 (length (batches dl)) / of_nat (dataset_len dl) * 1000,
              stage_total E 1 (length (batches dl)) / of_nat (dataset_len dl) * 1000,
              stage_total E 2 (length (batches dl)) / of_nat (dataset_len dl) * 1000,
              stage_total E 3 (length (batches dl)) / of_nat (dataset_len dl) * 1000) \<and>
           ((\<forall>k i. 0 \<le> elapsed E k i) \<longrightarrow>
              (\<forall>k. 0 \<le> stage_total E k (length (batches dl)) / of_nat (dataset_len dl) * 1000))) \<and>
         compute_speed (\<lparr>prof_t = 10 / 1000\<rparr>, \<lparr>prof_t = 40 / 1000\<rparr>, \<lparr>prof_t = 0\<rparr>, \<lparr>prof_t = 5 / 1000\<rparr>) 100 =
           Inr (1 / 10, 4 / 10, 0, 5 / 100)"
proof
  from assms obtain R L A P v1 m v3 v4 dt0 dt1 dt2 dt3 v5 stats dl where
    r: "snd (resolve E H v tr mo) = Inr (v1, m)"
    and d: "dataloader v1 = Some dl" "same_run v1 v3" "loss v3 = loss v1"
    and l: "snd (batch_loop E H tr (m\<lparr>eval_mode := True\<rparr>) (v3, Profile, Profile, Profile, Profile)
           (enumerate 0 (batches dl))) = Inr (v4, dt0, dt1, dt2, dt3)"
    and a: "snd (aggregate H v4 (dt0, dt1, dt2, dt3)) = Inr (v5, stats)"
    and p: "snd (report E H tr v5 (m\<lparr>eval_mode := True\<rparr>) stats) = Inr (v', r)"
    by (rule call_phases)
  note o = batch_loop_observed [OF l]
  have dts: "prof_t dt0 = stage_total E 0 (length (batches dl))"
    "prof_t dt1 = stage_total E 1 (length (batches dl))"
    "prof_t dt2 = stage_total E 2 (length (batches dl))"
    "prof_t dt3 = stage_total E 3 (length (batches dl))"
    using o by (blast intro: speed_timer)+
  from a obtain dl' sp where s45: "same_run v4 v5"
    and d4: "dataloader v4 = Some dl'"
    and sp: "compute_speed (dt0, dt1, dt2, dt3) (dataset_len dl') = Inr sp" "speed v5 = Some sp"
    by (rule aggregate_returns)
  have d': "dl' = dl"
    using d4 d o by (simp add: same_run_def)
  have dv': "dataloader v' = Some dl" and sv': "speed v' = Some sp"
    using report_returns [OF p] s45 d4 d' sp by (simp_all add: same_run_def)
  have pos: "0 < dataset_len dl"
    using sp(1) d' by (cases "dataset_len dl = 0") (simp_all add: compute_speed_def)
  have spv: "sp = (stage_total E 0 (length (batches dl)) / of_nat (dataset_len dl) * 1000,
              stage_total E 1 (length (batches dl)) / of_nat (dataset_len dl) * 1000,
              stage_total E 2 (length (batches dl)) / of_nat (dataset_len dl) * 1000,
              stage_total E 3 (length (batches dl)) / of_nat (dataset_len dl) * 1000)"
    using sp(1) d' dts pos by (simp add: compute_speed_def)
  have nn: "(\<forall>k i. 0 \<le> elapsed E k i) \<longrightarrow>
              (\<forall>k. 0 \<le> stage_total E k (length (batches dl)) / of_nat (dataset_len dl) * 1000)"
    by (simp add: stage_total_def sum_nonneg)
  show "\<exists>dl. dataloader v' = Some dl \<and> 0 < dataset_len dl \<and>
           speed v' = Some
             (stage_total E 0 (length (batches dl)) / of_nat (dataset_len dl) * 1000,
              stage_total E 1 (length (batches dl)) / of_nat (dataset_len dl) * 1000,
              stage_total E 2 (length (batches dl)) / of_nat (dataset_len dl) * 1000,
              stage_total E 3 (length (batches dl)) / of_nat (dataset_len dl) * 1000) \<and>
           ((\<forall>k i. 0 \<le> elapsed E k i) \<longrightarrow>
              (\<forall>k. 0 \<le> stage_total E k (length (batches dl)) / of_nat (dataset_len dl) * 1000))"
    using dv' sv' pos spv nn by blast
next
  show "compute_speed (\<lparr>prof_t = 10 / 1000\<rparr>, \<lparr>prof_t = 40 / 1000\<rparr>, \<lparr>prof_t = 0\<rparr>, \<lparr>prof_t = 5 / 1000\<rparr>) 100 =
           Inr (1 / 10, 4 / 10, 0, 5 / 100)"
    by (simp add: compute_speed_def)
qed

theorem speed_profile_per_sample_witness:
  "map_sum id (\<lambda>(v, r). speed v) (snd (call ex_env ex_hooks ex_validator None (Some ''yolov8n.pt''))) =
     Inr (Some (5, 5, 5, 5)) \<and>
   (\<forall>k. 0 \<le> stage_total ex_env k 2 / of_nat 4 * 1000)"
proof -
  let ?C = "call ex_env ex_hooks ex_validator None (Some ''yolov8n.pt'')"
  have dl: "map_sum id (\<lambda>(v, r). dataloader v) (snd ?C) = Inr (Some ex_loader)"
    by (simp add: call_defs ex_defs run_defs)
  then obtain v' r where r: "snd ?C = Inr (v', r)"
    by (cases "snd ?C") auto
  have dv: "dataloader v' = Some ex_loader"
    using dl r by simp
  have nn: "\<forall>k i. 0 \<le> elapsed ex_env k i"
    by (simp add: ex_env_def)
  have len: "length (batches ex_loader) = 2" "dataset_len ex_loader = 4"
    by (simp_all add: ex_loader_def)
  have st: "stage_total ex_env k 2 = 2 / 100" for k
    by (simp add: stage_total_def ex_env_def)
  from speed_profile_per_sample [OF r] obtain dl' where
    a: "dataloader v' = Some dl'"
    and b: "speed v' = Some
             (stage_total ex_env 0 (length (batches dl')) / of_nat (dataset_len dl') * 1000,
              stage_total ex_env 1 (length (batches dl')) / of_nat (dataset_len dl') * 1000,
              stage_total ex_env 2 (length (batches dl')) / of_nat (dataset_len dl') * 1000,
              stage_total ex_env 3 (length (batches dl')) / of_nat (dataset_len dl') * 1000)"
    and c: "(\<forall>k i. 0 \<le> elapsed ex_env k i) \<longrightarrow>
              (\<forall>k. 0 \<le> stage_total ex_env k (length (batches dl')) / of_nat (dataset_len dl') * 1000)"
    by blast
  have e: "dl' = ex_loader"
    using a dv by simp
  have "speed v' = Some (5, 5, 5, 5)"
    using b unfolding e len st by simp
  moreover have "\<forall>k. 0 \<le> stage_total ex_env k 2 / of_nat 4 * 1000"
    using c nn unfolding e len by simp
  ultimately show ?thesis
    using r by simp
qed

subsection \<open>An empty dataset\<close>

lemma returns_pair: "\<not> isl r \<Longrightarrow> \<exists>a b. r = Inr (a, b)"
  by (cases r) auto

lemma lifecycle_hooks_returnD:
  assumes "lifecycle_hooks_return H"
  shows "\<exists>a b. get_desc H h = Inr (a, b)" and "\<exists>a b. init_metrics H h m = Inr (a, b)"
    and "\<exists>a b. get_stats H h = Inr (a, b)" and "\<exists>a b. check_stats H h s = Inr (a, b)"
    and "\<exists>a b. print_results H h = Inr (a, b)"
  using assms unfolding lifecycle_hooks_return_def by (blast intro: returns_pair)+

text \<open>
  C10: when the resolved dataloader yields no batch and its dataset has no sample, and the
  hooks around the loop do not raise, the call runs the setup, no pipeline stage, then
  \<open>get_stats\<close>, \<open>check_stats\<close> and \<open>print_results\<close>, and line 118 raises
  \<open>ZeroDivisionError\<close>: the call returns no stats map.
\<close>

theorem empty_dataset_raises:
  fixes H :: "('v, 's, 'j, 'h) hooks"
  assumes "snd (resolve E H v tr mo) = Inr (v1, m)"
    and "dataloader v1 = Some dl" and "batches dl = []" and "dataset_len dl = 0"
    and "lifecycle_hooks_return H"
  shows "\<exists>stats. call E H v tr mo =
           (fst (resolve E H v tr mo) @ [GetDesc, InitMetrics, GetStats stats, CheckStats stats, PrintResults],
            Inl (ZeroDivisionError ''float division by zero''))"
proof -
  let ?m = "m\<lparr>eval_mode := True\<rparr>"
  let ?v0 = "v1\<lparr>model := Some ?m\<rparr>"
  from lifecycle_hooks_returnD [OF assms(5)] obtain h1 d where gd: "get_desc H (jdict ?v0, sub_state ?v0) = Inr (h1, d)"
    by blast
  from lifecycle_hooks_returnD [OF assms(5)] obtain h2 u where im: "init_metrics H h1 ?m = Inr (h2, u)"
    by blast
  from lifecycle_hooks_returnD [OF assms(5)] obtain h3 stats where gs: "get_stats H (Some [], snd h2) = Inr (h3, stats)"
    by blast
  from lifecycle_hooks_returnD [OF assms(5)] obtain h4 u' where cs: "check_stats H h3 stats = Inr (h4, u')"
    by blast
  from lifecycle_hooks_returnD [OF assms(5)] obtain h5 u'' where pr: "print_results H h4 = Inr (h5, u'')"
    by blast
  have va: "validate E H tr v1 m =
      ([GetDesc, InitMetrics, GetStats stats, CheckStats stats, PrintResults],
       Inl (ZeroDivisionError ''float division by zero''))"
    using assms(2-4) gd im gs cs pr
    by (simp add: validate_def Let_def call_hook_def bind_r_lift aggregate_def compute_speed_def
        Profile_def enumerate_eq_zip ret_def throw_def)
  have "call E H v tr mo = prepend (fst (resolve E H v tr mo)) (validate E H tr v1 m)"
    using assms(1) by (simp add: call_def bind_r_def prepend_def)
  then show ?thesis
    using va by auto
qed

theorem empty_dataset_raises_witness:
  "call ex_env BaseValidator (ex_validator\<lparr>dataloader := Some ex_empty_loader\<rparr>) (Some ex_trainer) None =
     ([GetDesc, InitMetrics, GetStats Map.empty, CheckStats Map.empty, PrintResults],
      Inl (ZeroDivisionError ''float division by zero''))"
proof -
  let ?v = "ex_validator\<lparr>dataloader := Some ex_empty_loader\<rparr>"
  let ?R = "resolve ex_env BaseValidator ?v (Some ex_trainer) None"
  have d: "map_sum id (\<lambda>(v, m). dataloader v) (snd ?R) = Inr (Some ex_empty_loader)"
    by (simp add: call_defs ex_defs run_defs)
  then obtain v1 m where r: "snd ?R = Inr (v1, m)"
    by (cases "snd ?R") auto
  have d1: "dataloader v1 = Some ex_empty_loader"
    using d r by simp
  have f: "fst ?R = []"
    by (simp add: call_defs ex_defs run_defs)
  have h: "lifecycle_hooks_return (BaseValidator :: (rat, rat, nat, unit) hooks)"
    by (simp add: lifecycle_hooks_return_def BaseValidator_def)
  have g: "fst (call ex_env BaseValidator ?v (Some ex_trainer) None) =
      [GetDesc, InitMetrics, GetStats Map.empty, CheckStats Map.empty, PrintResults]"
    by (simp add: call_defs ex_defs run_defs)
  from empty_dataset_raises [OF r d1 _ _ h] f g show ?thesis
    by (auto simp: ex_empty_loader_def)
qed

subsection \<open>JSON export\<close>


lemma report_embedded_json:
  assumes "training v"
  shows "fst (report E H tr v m stats) = []"
  using assms
  by (auto simp: report_def report_embedded_def Let_def split: option.splits)



subsection \<open>The inference context\<close>

lemma enter_exit_of_phase: "phase_of e \<noteq> DecoratorPhase \<Longrightarrow> \<not> is_enter_exit e"
  by (cases e) simp_all

text \<open>
  C9, against the decorator as the spec describes it: whatever the call does, and
  whether it returns or raises, the decorated call enters the inference context once,
  before everything else, leaves it once, after everything else, and leaves the flag of
  gradient bookkeeping as it found it; its outcome is that of the body.  In the concrete
  run the criterion raises on the second batch, after inference and before postprocess.
\<close>

theorem inference_context_released:
  "fst (decorated_call E H v tr mo disabled) = disabled \<and>
   fst (snd (decorated_call E H v tr mo disabled)) =
     [EnterInferenceMode] @ fst (call E H v tr mo) @ [ExitInferenceMode] \<and>
   \<not> list_ex is_enter_exit (fst (call E H v tr mo)) \<and>
   snd (snd (decorated_call E H v tr mo disabled)) = snd (call E H v tr mo)"
proof -
  have "list_all (\<lambda>e. \<not> is_enter_exit e) (fst (call E H v tr mo))"
    by (rule list_all_weaken [OF call_phase]) (simp add: enter_exit_of_phase)
  then have "\<not> list_ex is_enter_exit (fst (call E H v tr mo))"
    by (simp add: list_all_iff list_ex_iff)
  then show ?thesis
    by (simp add: decorated_call_def smart_inference_mode_def inference_enter_def
        inference_exit_def split: prod.splits)
qed

theorem inference_context_released_witness:
  "decorated_call ex_env ex_hooks ex_validator (Some ex_failing_trainer) None False =
     (False,
      [EnterInferenceMode, GetDesc, InitMetrics,
       Preprocess 0 [(''img'', 1)] [(''img'', 1)], Infer 0 1 2, Criterion 0 2 [(''img'', 1)] 2,
       Postprocess 0 2 2, UpdateMetrics 0 2 [(''img'', 1)],
       Preprocess 1 [(''img'', 3)] [(''img'', 3)], Infer 1 3 6, ExitInferenceMode],
      Inl (Raised ''criterion''))"
proof -
  let ?C = "call ex_env ex_hooks ex_validator (Some ex_failing_trainer) None"
  have c: "?C =
     ([GetDesc, InitMetrics,
       Preprocess 0 [(''img'', 1)] [(''img'', 1)], Infer 0 1 2, Criterion 0 2 [(''img'', 1)] 2,
       Postprocess 0 2 2, UpdateMetrics 0 2 [(''img'', 1)],
       Preprocess 1 [(''img'', 3)] [(''img'', 3)], Infer 1 3 6],
      Inl (Raised ''criterion''))"
    by (simp add: call_defs ex_defs run_defs)
  from inference_context_released [of ex_env ex_hooks ex_validator "Some ex_failing_trainer" None False]
  show ?thesis
    unfolding c by (cases "decorated_call ex_env ex_hooks ex_validator (Some ex_failing_trainer) None False") simp
qed

lemma stages_Cons:
  "stages (e # es) = (case stage_of e of None \<Rightarrow> stages es | Some s \<Rightarrow> s # stages es)"
  by (simp add: stages_def map_filter_Cons split: option.splits)

lemma stages_Nil [simp]: "stages [] = []"
  by (simp add: stages_def map_filter_Nil)

lemma preprocessed_Cons:
  "preprocessed (e # es) = (case preprocess_input e of None \<Rightarrow> preprocessed es | Some s \<Rightarrow> s # preprocessed es)"
  by (simp add: preprocessed_def map_filter_Cons split: option.splits)

lemma preprocessed_Nil [simp]: "preprocessed [] = []"
  by (simp add: preprocessed_def map_filter_Nil)

lemma plot_stage_any:
  "list_all (\<lambda>e. stage_of e = None) (fst (plot_stage H v b p i))"
  unfolding plot_stage_def
  by (auto split: option.splits prod.splits intro!: all_bind_r)

lemma batch_pipeline_raises:
  assumes "snd (batch_pipeline E H tr m (v, dt0, dt1, dt2, dt3) (i, b)) = Inl e"
  shows "prefix (stages (fst (batch_pipeline E H tr m (v, dt0, dt1, dt2, dt3) (i, b))))
           (stages_of_batch (training v) i) \<and>
         prefix (preprocessed (fst (batch_pipeline E H tr m (v, dt0, dt1, dt2, dt3) (i, b)))) [b] \<and>
         flows cb cp (fst (batch_pipeline E H tr m (v, dt0, dt1, dt2, dt3) (i, b)))"
proof -
  let ?v0 = "v\<lparr>batch_i := Some i\<rparr>"
  let ?T = "fst (batch_pipeline E H tr m (v, dt0, dt1, dt2, dt3) (i, b))"
  show ?thesis
  proof (cases "call_hook ?v0 (\<lambda>h. preprocess H h b)")
    case (Inl e1)
    then have "?T = []"
      by (simp add: batch_pipeline_def Let_def bind_r_lift)
    then show ?thesis by simp
  next
    case (Inr a)
    then obtain v1 b' where pre: "call_hook ?v0 (\<lambda>h. preprocess H h b) = Inr (v1, b')"
      by (cases a) auto
    have t1: "training v1 = training v"
      using call_hook_same [OF pre] by (simp add: same_run_def)
    show ?thesis
    proof (cases "batch_img b'")
      case (Inl e2)
      with pre have "?T = [Preprocess i b b']"
        by (simp add: batch_pipeline_def Let_def bind_r_lift)
      then show ?thesis
        by (simp add: stages_Cons preprocessed_Cons stages_of_batch_def)
    next
      case (Inr x)
      then have img: "map_of b' ''img'' = Some x"
        by (simp add: batch_img_def split: option.splits)
      show ?thesis
      proof (cases "forward m x")
        case (Inl e3)
        with pre Inr have "?T = [Preprocess i b b']"
          by (simp add: batch_pipeline_def Let_def bind_r_lift)
        then show ?thesis
          by (simp add: stages_Cons preprocessed_Cons stages_of_batch_def)
      next
        case fw: (Inr p)
        let ?LS = "loss_stage E tr v1 i p b'"
        show ?thesis
        proof (cases "snd ?LS")
          case (Inl e4)
          then have "fst ?LS = []"
            by (auto simp: loss_stage_def bind_r_lift fst_bind_r
                split: if_splits option.splits sum.splits)
          with pre Inr fw Inl have "?T = [Preprocess i b b', Infer i x p]"
            by (simp add: batch_pipeline_def Let_def bind_r_lift fst_bind_r)
          then show ?thesis
            using img by (simp add: stages_Cons preprocessed_Cons stages_of_batch_def)
        next
          case ls: (Inr v2)
          from loss_stage_returns [OF ls] obtain cs where
            cs: "fst ?LS = map (Criterion i p b') cs"
              "length cs = (if training v1 then 1 else 0)"
            by blast
          have cs': "cs = [] \<and> \<not> training v \<or> (\<exists>c. cs = [c]) \<and> training v"
            using cs(2) t1 by (cases cs) (auto split: if_splits)
          show ?thesis
          proof (cases "call_hook v2 (\<lambda>h. postprocess H h p)")
            case (Inl e5)
            with pre Inr fw ls have "?T = [Preprocess i b b', Infer i x p] @ map (Criterion i p b') cs"
              by (simp add: batch_pipeline_def Let_def bind_r_lift fst_bind_r cs)
            then show ?thesis
              using img cs' by (auto simp: stages_Cons preprocessed_Cons stages_of_batch_def)
          next
            case (Inr a2)
            then obtain v3 p' where post: "call_hook v2 (\<lambda>h. postprocess H h p) = Inr (v3, p')"
              by (cases a2) auto
            have "\<exists>pl. ?T = [Preprocess i b b', Infer i x p] @ map (Criterion i p b') cs @
                     [Postprocess i p p', UpdateMetrics i p' b'] @ pl \<and>
                     list_all (\<lambda>e. stage_of e = None) pl"
            proof (cases "call_hook v3 (\<lambda>h. update_metrics H h p' b')")
              case (Inl e6)
              with pre \<open>batch_img b' = Inr x\<close> fw ls post
              have "?T = [Preprocess i b b', Infer i x p] @ map (Criterion i p b') cs @
                     [Postprocess i p p', UpdateMetrics i p' b'] @ []"
                by (simp add: batch_pipeline_def Let_def bind_r_lift fst_bind_r cs)
              then show ?thesis by (intro exI [of _ "[]"]) simp
            next
              case (Inr a3)
              then obtain v4 u where upd: "call_hook v3 (\<lambda>h. update_metrics H h p' b') = Inr (v4, u)"
                by (cases a3) auto
              with pre \<open>batch_img b' = Inr x\<close> fw ls post
              have "?T = [Preprocess i b b', Infer i x p] @ map (Criterion i p b') cs @
                     [Postprocess i p p', UpdateMetrics i p' b'] @ fst (plot_stage H v4 b' p' i)"
                by (simp add: batch_pipeline_def Let_def bind_r_lift fst_bind_r cs
                    split: sum.splits)
              then show ?thesis
                using plot_stage_any [of H v4 b' p' i]
                by (intro exI [of _ "fst (plot_stage H v4 b' p' i)"]) simp
            qed
            then obtain pl where T: "?T = [Preprocess i b b', Infer i x p] @ map (Criterion i p b') cs @
                     [Postprocess i p p', UpdateMetrics i p' b'] @ pl"
              and pl: "list_all (\<lambda>e. stage_of e = None) pl"
              by blast
            have c: "length cs = (if training v then 1 else 0)" "length cs \<le> 1"
              using cs(2) t1 by (simp_all split: if_splits)
            have "stages ?T = stages_of_batch (training v) i"
              unfolding T by (rule batch_trace_stages [OF c(1) pl])
            moreover have "preprocessed ?T = [b]"
              unfolding T by (rule batch_trace_observed(1) [OF pl])
            moreover have "flows cb cp ?T"
              using batch_trace_flows [OF img c(2) pl, of cb cp i b p p' "[]"] unfolding T by simp
            ultimately show ?thesis by simp
          qed
        qed
      qed
    qed
  qed
qed


lemma prefix_expected_Suc:
  "prefix xs (stages_of_batch e k) \<Longrightarrow> prefix xs (expected_stages e k (Suc n))"
  by (simp add: expected_stages_Suc prefix_prefix)

lemma prefix_single_Cons: "prefix xs [b] \<Longrightarrow> prefix xs (b # bs)"
  by (cases xs) auto

lemma batch_loop_any:
  fixes H :: "('v, 's, 'j, 'h) hooks"
  shows "prefix (stages (fst (batch_loop E H tr m (v, dt0, dt1, dt2, dt3) (enumerate k bs))))
           (expected_stages (training v) k (length bs)) \<and>
         prefix (preprocessed (fst (batch_loop E H tr m (v, dt0, dt1, dt2, dt3) (enumerate k bs)))) bs \<and>
         (\<forall>cb cp. flows cb cp (fst (batch_loop E H tr m (v, dt0, dt1, dt2, dt3) (enumerate k bs))))"
proof (induction bs arbitrary: v dt0 dt1 dt2 dt3 k)
  case Nil
  show ?case by (simp add: ret_def)
next
  case (Cons b bs)
  let ?st = "(v, dt0, dt1, dt2, dt3)"
  let ?B = "batch_pipeline E H tr m ?st (k, b)"
  let ?T = "fst (batch_loop E H tr m ?st (enumerate k (b # bs)))"
  show ?case
  proof (cases "snd ?B")
    case (Inl e)
    then have T: "?T = fst ?B"
      by (simp add: fst_bind_r)
    from batch_pipeline_raises [OF Inl] show ?thesis
      unfolding T by (simp add: prefix_expected_Suc prefix_single_Cons)
  next
    case (Inr st1)
    obtain v1 e0 e1 e2 e3 where st1: "st1 = (v1, e0, e1, e2, e3)"
      by (cases st1) auto
    let ?L = "fst (batch_loop E H tr m (v1, e0, e1, e2, e3) (enumerate (Suc k) bs))"
    have T: "?T = fst ?B @ ?L"
      using Inr st1 by (simp add: fst_bind_r)
    note o = batch_pipeline_observed [OF Inr [unfolded st1]]
    note ih = Cons.IH [of v1 e0 e1 e2 e3 "Suc k"]
    have tv: "training v1 = training v"
      using o(5) by (simp add: same_run_def)
    have "prefix (stages (fst ?B @ ?L)) (expected_stages (training v) k (length (b # bs)))"
      using o(1) ih tv by (simp add: observers_append expected_stages_Suc)
    moreover have "prefix (preprocessed (fst ?B @ ?L)) (b # bs)"
      using o(2) ih by (simp add: observers_append)
    moreover have "\<forall>cb cp. flows cb cp (fst ?B @ ?L)"
    proof (intro allI)
      fix cb cp
      from o(7) obtain cb1 cp1 where
        f: "\<And>cb cp rest. flows cb cp (fst ?B @ rest) = flows cb1 cp1 rest"
        by blast
      show "flows cb cp (fst ?B @ ?L)"
        using ih by (simp add: f)
    qed
    ultimately show ?thesis
      unfolding T by blast
  qed
qed


lemma flows_append_skip:
  "list_all (\<lambda>e. stage_of e = None) X \<Longrightarrow> flows cb cp (L @ X) = flows cb cp L"
proof (induction cb cp L rule: flows.induct)
  case (1 cb cp)
  then show ?case
    using flows_skip [of X cb cp "[]"] by simp
qed simp_all

lemma validate_any:
  fixes H :: "('v, 's, 'j, 'h) hooks"
  assumes "dataloader v1 = Some dl"
  shows "\<exists>S L X v3. fst (validate E H tr v1 m) = S @ L @ X \<and>
           list_all (\<lambda>e. stage_of e = None) S \<and> list_all (\<lambda>e. stage_of e = None) X \<and>
           same_run v1 v3 \<and>
           (L = [] \<or> L = fst (batch_loop E H tr (m\<lparr>eval_mode := True\<rparr>)
                  (v3, Profile, Profile, Profile, Profile) (enumerate 0 (batches dl))))"
proof -
  let ?m = "m\<lparr>eval_mode := True\<rparr>"
  let ?v0 = "v1\<lparr>model := Some ?m\<rparr>"
  let ?V = "fst (validate E H tr v1 m)"
  show ?thesis
  proof (cases "call_hook ?v0 (\<lambda>h. get_desc H h)")
    case (Inl e)
    with assms have "?V = [GetDesc] @ [] @ []"
      by (simp add: validate_def Let_def bind_r_lift)
    then show ?thesis
      by (intro exI [of _ "[GetDesc]"] exI [of _ "[]"] exI [of _ v1]) simp
  next
    case (Inr a)
    then obtain v2 d where gd: "call_hook ?v0 (\<lambda>h. get_desc H h) = Inr (v2, d)"
      by (cases a) auto
    show ?thesis
    proof (cases "call_hook v2 (\<lambda>h. init_metrics H h ?m)")
      case (Inl e)
      with assms gd have "?V = [GetDesc, InitMetrics] @ [] @ []"
        by (simp add: validate_def Let_def bind_r_lift)
      then show ?thesis
        by (intro exI [of _ "[GetDesc, InitMetrics]"] exI [of _ "[]"] exI [of _ v1]) simp
    next
      case (Inr a')
      then obtain v2' u where im: "call_hook v2 (\<lambda>h. init_metrics H h ?m) = Inr (v2', u)"
        by (cases a') auto
      let ?v3 = "v2'\<lparr>jdict := Some []\<rparr>"
      let ?L = "batch_loop E H tr ?m (?v3, Profile, Profile, Profile, Profile) (enumerate 0 (batches dl))"
      let ?K = "\<lambda>st. case st of (v4, dt') \<Rightarrow>
                  bind_r (aggregate H v4 dt') (\<lambda>(v5, stats). report E H tr v5 ?m stats)"
      let ?X = "case snd ?L of Inl e \<Rightarrow> [] | Inr st \<Rightarrow> fst (?K st)"
      have V: "?V = [GetDesc, InitMetrics] @ fst ?L @ ?X"
        using assms gd im
        by (simp add: validate_def Let_def bind_r_lift fst_bind_r split: sum.splits)
      have s: "same_run v1 ?v3"
        using call_hook_same [OF gd] call_hook_same [OF im] by (simp add: same_run_def)
      have "list_all (\<lambda>e. stage_of e = None) (fst (?K st))" for st
        by (cases st)
           (auto intro!: all_bind_r list_all_weaken [OF aggregate_phase] list_all_weaken [OF report_phase]
              simp: stage_none_of_phase split: prod.splits)
      then have X: "list_all (\<lambda>e. stage_of e = None) ?X"
        by (simp split: sum.splits)
      show ?thesis
        using V X s
        by (intro exI [of _ "[GetDesc, InitMetrics]"] exI [of _ "fst ?L"] exI [of _ ?X] exI [of _ ?v3])
           simp
    qed
  qed
qed

lemma call_any:
  fixes H :: "('v, 's, 'j, 'h) hooks"
  assumes "snd (resolve E H v tr mo) = Inr (v1, m)" and "dataloader v1 = Some dl"
  shows "prefix (stages (fst (call E H v tr mo)))
           (expected_stages (tr \<noteq> None) 0 (length (batches dl))) \<and>
         prefix (preprocessed (fst (call E H v tr mo))) (batches dl) \<and>
         flows None None (fst (call E H v tr mo))"
proof -
  from validate_any [OF assms(2), of E H tr m] obtain S L X v3 where
    V: "fst (validate E H tr v1 m) = S @ L @ X"
    and nS: "list_all (\<lambda>e. stage_of e = None) S" and nX: "list_all (\<lambda>e. stage_of e = None) X"
    and s: "same_run v1 v3"
    and L: "L = [] \<or> L = fst (batch_loop E H tr (m\<lparr>eval_mode := True\<rparr>)
                  (v3, Profile, Profile, Profile, Profile) (enumerate 0 (batches dl)))"
    by blast
  let ?R = "fst (resolve E H v tr mo)"
  have T: "fst (call E H v tr mo) = ?R @ S @ L @ X"
    using assms(1) V by (simp add: call_def fst_bind_r)
  have nR: "list_all (\<lambda>e. stage_of e = None) ?R"
    by (rule resolve_no_stage)
  have tv: "training v3 = (tr \<noteq> None)"
    using resolve_returns [OF assms(1)] s by (simp add: same_run_def)
  have l: "prefix (stages L) (expected_stages (tr \<noteq> None) 0 (length (batches dl))) \<and>
           prefix (preprocessed L) (batches dl) \<and> (\<forall>cb cp. flows cb cp L)"
    using L batch_loop_any [of E H tr "m\<lparr>eval_mode := True\<rparr>" v3 Profile Profile Profile Profile 0 "batches dl"] tv
    by auto
  have "stages (?R @ S @ L @ X) = stages L" "preprocessed (?R @ S @ L @ X) = preprocessed L"
    by (simp_all add: observers_append no_stage_observed [OF nR] no_stage_observed [OF nS]
        no_stage_observed [OF nX])
  moreover have "flows None None (?R @ S @ L @ X) = flows None None L"
    by (simp add: flows_skip [OF nR] flows_skip [OF nS] flows_append_skip [OF nX])
  ultimately show ?thesis
    unfolding T using l by simp
qed

subsection \<open>The pipeline runs once per batch\<close>

text \<open>
  C3.  Whatever the outcome of the call, once the mode is resolved the pipeline stages in
  the trace are an initial part of the stages of batch \<open>0\<close>, then batch \<open>1\<close>, and so on
  up to the last batch of the dataloader, each batch with its stages in the order
  preprocess, inference, loss (present exactly in embedded mode), postprocess,
  update_metrics; \<open>preprocess\<close> receives batches of the dataloader in the dataloader's
  order; inference receives the \<open>img\<close> entry of the preprocessed batch, and the later
  stages the predictions and the preprocessed batch of the same iteration.  In a call that
  returns the stages are those of all the batches and \<open>update_metrics\<close> is called as many
  times as there are batches.
\<close>

theorem pipeline_once_per_batch:
  fixes H :: "('v, 's, 'j, 'h) hooks"
  shows "(snd (resolve E H v tr mo) = Inr (v1, m) \<and> dataloader v1 = Some dl \<longrightarrow>
            prefix (stages (fst (call E H v tr mo)))
              (expected_stages (tr \<noteq> None) 0 (length (batches dl))) \<and>
            prefix (preprocessed (fst (call E H v tr mo))) (batches dl) \<and>
            flows None None (fst (call E H v tr mo))) \<and>
         (snd (call E H v tr mo) = Inr (v', r) \<longrightarrow>
            (\<exists>dl. dataloader v' = Some dl \<and>
               stages (fst (call E H v tr mo)) =
                 expected_stages (tr \<noteq> None) 0 (length (batches dl)) \<and>
               preprocessed (fst (call E H v tr mo)) = batches dl \<and>
               length (filter is_update (fst (call E H v tr mo))) = length (batches dl)))"
proof (intro conjI impI)
  assume a: "snd (resolve E H v tr mo) = Inr (v1, m) \<and> dataloader v1 = Some dl"
  then have r: "snd (resolve E H v tr mo) = Inr (v1, m)" and d: "dataloader v1 = Some dl"
    by simp_all
  from call_any [OF r d]
  show "prefix (stages (fst (call E H v tr mo)))
          (expected_stages (tr \<noteq> None) 0 (length (batches dl)))"
    and "prefix (preprocessed (fst (call E H v tr mo))) (batches dl)"
    and "flows None None (fst (call E H v tr mo))"
    by simp_all
next
  assume "snd (call E H v tr mo) = Inr (v', r)"
  from pipeline_of_returning_call [OF this]
  show "\<exists>dl. dataloader v' = Some dl \<and>
          stages (fst (call E H v tr mo)) = expected_stages (tr \<noteq> None) 0 (length (batches dl)) \<and>
          preprocessed (fst (call E H v tr mo)) = batches dl \<and>
          length (filter is_update (fst (call E H v tr mo))) = length (batches dl)"
    by blast
qed

theorem pipeline_once_per_batch_witness:
  "stages (fst (call ex_env ex_hooks ex_validator (Some ex_trainer) None)) =
     [(0, PreprocessStage), (0, InferStage), (0, LossStage), (0, PostprocessStage), (0, UpdateStage),
      (1, PreprocessStage), (1, InferStage), (1, LossStage), (1, PostprocessStage), (1, UpdateStage)] \<and>
   preprocessed (fst (call ex_env ex_hooks ex_validator (Some ex_trainer) None)) =
     [[(''img'', 1)], [(''img'', 3)]] \<and>
   length (filter is_update (fst (call ex_env ex_hooks ex_validator (Some ex_trainer) None))) = 2 \<and>
   prefix (stages (fst (call ex_env ex_hooks ex_validator (Some ex_failing_trainer) None)))
     [(0, PreprocessStage), (0, InferStage), (0, LossStage), (0, PostprocessStage), (0, UpdateStage),
      (1, PreprocessStage), (1, InferStage), (1, LossStage), (1, PostprocessStage), (1, UpdateStage)] \<and>
   flows None None (fst (call ex_env ex_hooks ex_validator (Some ex_failing_trainer) None))"
proof -
  let ?C = "call ex_env ex_hooks ex_validator (Some ex_trainer) None"
  let ?F = "call ex_env ex_hooks ex_validator (Some ex_failing_trainer) None"
  let ?R = "resolve ex_env ex_hooks ex_validator (Some ex_failing_trainer) None"
  have dl: "map_sum id (\<lambda>(v, r). dataloader v) (snd ?C) = Inr (Some ex_loader)"
    by (simp add: call_defs ex_defs run_defs)
  then obtain v' r where r: "snd ?C = Inr (v', r)"
    by (cases "snd ?C") auto
  have dv: "dataloader v' = Some ex_loader"
    using dl r by simp
  have rl: "map_sum id (\<lambda>(v, m). dataloader v) (snd ?R) = Inr (Some ex_loader)"
    by (simp add: call_defs ex_defs run_defs)
  then obtain v1 m where r1: "snd ?R = Inr (v1, m)"
    by (cases "snd ?R") auto
  have d1: "dataloader v1 = Some ex_loader"
    using rl r1 by simp
  have e: "expected_stages True 0 (length (batches ex_loader)) =
     [(0, PreprocessStage), (0, InferStage), (0, LossStage), (0, PostprocessStage), (0, UpdateStage),
      (1, PreprocessStage), (1, InferStage), (1, LossStage), (1, PostprocessStage), (1, UpdateStage)]"
    by (simp add: ex_loader_def expected_stages_def stages_of_batch_def)
  have b: "batches ex_loader = [[(''img'', 1)], [(''img'', 3)]]"
    by (simp add: ex_loader_def)
  from pipeline_once_per_batch [where E = ex_env and H = ex_hooks and v = ex_validator
      and tr = "Some ex_trainer" and mo = None and v' = v' and r = r] r dv
  have "stages (fst ?C) = expected_stages True 0 (length (batches ex_loader)) \<and>
        preprocessed (fst ?C) = batches ex_loader \<and>
        length (filter is_update (fst ?C)) = length (batches ex_loader)"
    by auto
  moreover
  from pipeline_once_per_batch [where E = ex_env and H = ex_hooks and v = ex_validator
      and tr = "Some ex_failing_trainer" and mo = None and ?v1.0 = v1 and m = m and dl = ex_loader]
    r1 d1
  have "prefix (stages (fst ?F)) (expected_stages True 0 (length (batches ex_loader))) \<and>
        flows None None (fst ?F)"
    by simp
  ultimately show ?thesis
    unfolding e unfolding b by simp
qed

end
